theory Spec2Isabelle
  imports Complex_Main "HOL-Library.Multiset" "HOL-Library.Sublist"
begin

section \<open>Expression nodes and the device-type catalog\<close>

text \<open>
  The expression nodes that \<^verbatim>\<open>gpuscan.c\<close> inspects are PostgreSQL's \<^verbatim>\<open>Const\<close>,
  \<^verbatim>\<open>Param\<close> and \<^verbatim>\<open>Var\<close> (distinguished with \<^verbatim>\<open>IsA\<close>), below operator and
  function applications. Only the fields the file reads are kept: the type Oid of
  each leaf and the column number \<^verbatim>\<open>varattno\<close> (an \<^verbatim>\<open>AttrNumber\<close>, a signed
  16-bit integer) of a \<^verbatim>\<open>Var\<close>.
\<close>

type_synonym Oid = nat
type_synonym AttrNumber = int

datatype Node =
    Const (consttype: Oid) (constvalue: int)
  | Param (paramtype: Oid) (paramid: int)
  | Var (vartype: Oid) (varattno: AttrNumber)
  | OpExpr (opno: Oid) (opresulttype: Oid) (opargs: "Node list")
  | FuncExpr (funcid: Oid) (funcresulttype: Oid) (funcargs: "Node list")

record RestrictInfo =
  clause :: Node

text \<open>
  Modelled from the spec: \<^verbatim>\<open>devtype_info\<close>, \<^verbatim>\<open>DEVTYPE_IS_VARLENA\<close> and
  \<^verbatim>\<open>pgstrom_devtype_lookup\<close> are declared in a header that is not at hand. The spec gives the
  lookup as \<^verbatim>\<open>lookup(logical_type) -> {device_type_name, is_variable_length}\<close>, with
  no result for a type that has no device-side mapping; the test
  \<^verbatim>\<open>type_flags & DEVTYPE_IS_VARLENA\<close> of the source is the second component.
\<close>

record devtype_info =
  type_ident :: string
  type_is_varlena :: bool

type_synonym devtype_catalog = "Oid \<Rightarrow> devtype_info option"

section \<open>Attribute tracker\<close>

text \<open>
  Modelled from the spec: \<^verbatim>\<open>pull_varattnos\<close> belongs to the host executor. The spec
  (section 4.1) gives it as a walk over the expression tree that accumulates the
  column ordinals the tree reads into a set supplied by the caller.
\<close>

fun pull_varattnos :: "Node \<Rightarrow> AttrNumber set \<Rightarrow> AttrNumber set" where
  "pull_varattnos (Const t v) s = s"
| "pull_varattnos (Param t p) s = s"
| "pull_varattnos (Var t a) s = insert a s"
| "pull_varattnos (OpExpr f r as) s = fold pull_varattnos as s"
| "pull_varattnos (FuncExpr f r as) s = fold pull_varattnos as s"

definition varattnos_of :: "Node \<Rightarrow> AttrNumber set" where
  "varattnos_of n = pull_varattnos n {}"

section \<open>Predicate classifier\<close>

text \<open>
  Modelled from the spec: \<^verbatim>\<open>pgstrom_codegen_available_expression\<close> is defined in a
  file of the extension that is not at hand. The spec (section 4.2) gives it as a recursive check that every
  operator, function and type appearing in the subtree has a known device-side
  counterpart; a node that cannot be resolved makes the test false, never an error.
\<close>

fun pgstrom_codegen_available_expression ::
  "devtype_catalog \<Rightarrow> (Oid \<Rightarrow> bool) \<Rightarrow> Node \<Rightarrow> bool" where
  "pgstrom_codegen_available_expression dt df (Const t v) = (dt t \<noteq> None)"
| "pgstrom_codegen_available_expression dt df (Param t p) = (dt t \<noteq> None)"
| "pgstrom_codegen_available_expression dt df (Var t a) = (dt t \<noteq> None)"
| "pgstrom_codegen_available_expression dt df (OpExpr f r as) =
     (df f \<and> dt r \<noteq> None \<and> list_all (pgstrom_codegen_available_expression dt df) as)"
| "pgstrom_codegen_available_expression dt df (FuncExpr f r as) =
     (df f \<and> dt r \<noteq> None \<and> list_all (pgstrom_codegen_available_expression dt df) as)"

text \<open>
  The path node of \<^verbatim>\<open>gpuscan_add_scan_path\<close>: the four fields the loop over
  \<^verbatim>\<open>baserel->baserestrictinfo\<close> fills. \<^verbatim>\<open>NIL\<close> is the empty list and a
  \<^verbatim>\<open>NULL\<close> bitmap set the empty set.
\<close>

record GpuScanPath =
  dev_quals :: "RestrictInfo list"
  host_quals :: "RestrictInfo list"
  dev_attrs :: "AttrNumber set"
  host_attrs :: "AttrNumber set"

definition lappend :: "'a list \<Rightarrow> 'a \<Rightarrow> 'a list" where
  "lappend xs x = xs @ [x]"

text \<open>The body of the \<^verbatim>\<open>foreach\<close> loop (lines 176 to 187), for one \<^verbatim>\<open>rinfo\<close>.\<close>

definition classify_rinfo :: "(Node \<Rightarrow> bool) \<Rightarrow> GpuScanPath \<Rightarrow> RestrictInfo \<Rightarrow> GpuScanPath" where
  "classify_rinfo avail p rinfo =
     (if avail (clause rinfo)
      then p\<lparr>dev_attrs := pull_varattnos (clause rinfo) (dev_attrs p),
             dev_quals := lappend (dev_quals p) rinfo\<rparr>
      else p\<lparr>host_attrs := pull_varattnos (clause rinfo) (host_attrs p),
             host_quals := lappend (host_quals p) rinfo\<rparr>)"

fun classify_loop :: "(Node \<Rightarrow> bool) \<Rightarrow> GpuScanPath \<Rightarrow> RestrictInfo list \<Rightarrow> GpuScanPath" where
  "classify_loop avail p [] = p"
| "classify_loop avail p (rinfo # rest) = classify_loop avail (classify_rinfo avail p rinfo) rest"

text \<open>
  \<^verbatim>\<open>gpuscan_add_scan_path\<close>, as far as the classification goes: the four
  accumulators start empty, the loop runs over the restriction list, and the columns
  of the target list are added to \<^verbatim>\<open>host_attrs\<close> last (line 190).
\<close>

definition gpuscan_add_scan_path ::
  "(Node \<Rightarrow> bool) \<Rightarrow> RestrictInfo list \<Rightarrow> Node list \<Rightarrow> GpuScanPath" where
  "gpuscan_add_scan_path avail baserestrictinfo reltargetlist =
     (let p = classify_loop avail
                \<lparr>dev_quals = [], host_quals = [], dev_attrs = {}, host_attrs = {}\<rparr>
                baserestrictinfo
      in p\<lparr>host_attrs := fold pull_varattnos reltargetlist (host_attrs p)\<rparr>)"

text \<open>
  The spec's words for the capability test, "every node of the expression tree has a
  device-side mapping", written out: the list of all nodes of a tree, and the test of
  one node against the catalogs.
\<close>

fun subnodes :: "Node \<Rightarrow> Node list" where
  "subnodes (Const t v) = [Const t v]"
| "subnodes (Param t p) = [Param t p]"
| "subnodes (Var t a) = [Var t a]"
| "subnodes (OpExpr f r as) = OpExpr f r as # concat (map subnodes as)"
| "subnodes (FuncExpr f r as) = FuncExpr f r as # concat (map subnodes as)"

fun node_has_mapping :: "devtype_catalog \<Rightarrow> (Oid \<Rightarrow> bool) \<Rightarrow> Node \<Rightarrow> bool" where
  "node_has_mapping dt df (Const t v) = (dt t \<noteq> None)"
| "node_has_mapping dt df (Param t p) = (dt t \<noteq> None)"
| "node_has_mapping dt df (Var t a) = (dt t \<noteq> None)"
| "node_has_mapping dt df (OpExpr f r as) = (df f \<and> dt r \<noteq> None)"
| "node_has_mapping dt df (FuncExpr f r as) = (df f \<and> dt r \<noteq> None)"

section \<open>Errors\<close>

text \<open>
  What \<^verbatim>\<open>elog(ERROR, ...)\<close> and \<^verbatim>\<open>ereport(ERROR, ...)\<close> raise, as values: the message
  of an \<^verbatim>\<open>elog\<close>, the error code and message of an \<^verbatim>\<open>ereport\<close>. A failed
  \<^verbatim>\<open>Assert\<close> and the use of a list cell as a node type it does not have (a cast the
  source does not check) are branches of their own.
\<close>

datatype errcode = ERRCODE_OUT_OF_MEMORY

datatype pg_error =
    ElogError string
  | EreportError errcode string
  | UnexpectedNode Node
  | AssertFailed
  | InvalidNodeCast

section \<open>Formatted output\<close>

text \<open>
  \<^verbatim>\<open>appendStringInfo\<close> formats with \<^verbatim>\<open>%u\<close> and \<^verbatim>\<open>%d\<close>. Both take a C \<^verbatim>\<open>int\<close>
  here (the loop counter \<^verbatim>\<open>index\<close>, and \<^verbatim>\<open>varattno\<close> after integer promotion);
  \<^verbatim>\<open>%u\<close> reads it as an unsigned 32-bit value.
\<close>

definition digit_char :: "nat \<Rightarrow> char" where
  "digit_char d = ''0123456789'' ! d"

fun dec :: "nat \<Rightarrow> string" where
  "dec n = (if n < 10 then [digit_char n] else dec (n div 10) @ [digit_char (n mod 10)])"

declare dec.simps [simp del]

definition printf_u :: "int \<Rightarrow> string" where
  "printf_u x = dec (nat (x mod 2 ^ 32))"

definition printf_d :: "int \<Rightarrow> string" where
  "printf_d x = (if x < 0 then CHR ''-'' # dec (nat (- x)) else dec (nat x))"

section \<open>Kernel code generator\<close>

text \<open>
  The code generation context, with the fields \<^verbatim>\<open>gpuscan.c\<close> reads (its declaration
  is in a header that is not at hand); \<^verbatim>\<open>memset(context, 0, ...)\<close> makes both lists
  \<^verbatim>\<open>NIL\<close> and the flags zero.
\<close>

record codegen_context =
  used_params :: "Node list"
  used_vars :: "Node list"
  extra_flags :: int

definition zero_context :: codegen_context where
  "zero_context = \<lparr>used_params = [], used_vars = [], extra_flags = 0\<rparr>"

text \<open>
  \<^verbatim>\<open>pgstrom_codegen_expression\<close> is defined in a file of the extension that is not
  at hand: the generator takes it as a parameter. It lowers the qualifier list in the given context and returns the
  expression text (or \<^verbatim>\<open>NULL\<close>) with the context it has filled, or raises.
\<close>

type_synonym 'q codegen_expression =
  "'q list \<Rightarrow> codegen_context \<Rightarrow> pg_error + (string option \<times> codegen_context)"

text \<open>The two \<^verbatim>\<open>appendStringInfo\<close> calls of the parameter loop have the same format.\<close>

definition kparam_line :: "int \<Rightarrow> devtype_info \<Rightarrow> string" where
  "kparam_line index dtype =
     ''#define KPARAM_'' @ printf_u index @ [CHR 0x09] @
     ''pg_'' @ type_ident dtype @ ''_param(kparams,'' @ printf_d index @ '')\<newline>''"

text \<open>Lines 246 to 275: the loop over \<^verbatim>\<open>context->used_params\<close>, with its counter.\<close>

fun put_params :: "devtype_catalog \<Rightarrow> int \<Rightarrow> string \<Rightarrow> Node list \<Rightarrow> pg_error + string" where
  "put_params dt index str [] = Inr str"
| "put_params dt index str (Const t v # rest) =
     (case dt t of
        None \<Rightarrow> Inl AssertFailed
      | Some dtype \<Rightarrow> put_params dt (index + 1) (str @ kparam_line index dtype) rest)"
| "put_params dt index str (Param t p # rest) =
     (case dt t of
        None \<Rightarrow> Inl AssertFailed
      | Some dtype \<Rightarrow> put_params dt (index + 1) (str @ kparam_line index dtype) rest)"
| "put_params dt index str (n # rest) = Inl (UnexpectedNode n)"

definition kvar_line :: "int \<Rightarrow> devtype_info \<Rightarrow> string" where
  "kvar_line index dtype =
     (if type_is_varlena dtype
      then ''#define KVAR_'' @ printf_u index @ [CHR 0x09] @
           ''pg_'' @ type_ident dtype @ ''_vref(kcs,toast,'' @ printf_u index @
           '',get_global_id(0))\<newline>''
      else ''#define KVAR_'' @ printf_u index @ [CHR 0x09] @
           ''pg_'' @ type_ident dtype @ ''_vref(kcs,'' @ printf_u index @
           '',get_global_id(0))\<newline>'')"

text \<open>
  Lines 279 to 297: the loop over \<^verbatim>\<open>context->used_vars\<close>. The source reads every cell
  as a \<^verbatim>\<open>Var\<close> without a test.
\<close>

fun put_vars :: "devtype_catalog \<Rightarrow> int \<Rightarrow> string \<Rightarrow> Node list \<Rightarrow> pg_error + string" where
  "put_vars dt index str [] = Inr str"
| "put_vars dt index str (Var t a # rest) =
     (case dt t of
        None \<Rightarrow> Inl AssertFailed
      | Some dtype \<Rightarrow> put_vars dt (index + 1) (str @ kvar_line index dtype) rest)"
| "put_vars dt index str (n # rest) = Inl InvalidNodeCast"

text \<open>
  Lines 303 to 310: the column numbers, separated by \<^verbatim>\<open>", "\<close> except before the head
  of the list.
\<close>

fun put_attnos :: "bool \<Rightarrow> string \<Rightarrow> Node list \<Rightarrow> pg_error + string" where
  "put_attnos is_head str [] = Inr str"
| "put_attnos is_head str (Var t a # rest) =
     put_attnos False (str @ (if is_head then '''' else '', '') @ printf_u a) rest"
| "put_attnos is_head str (n # rest) = Inl InvalidNodeCast"

text \<open>
  Lines 314 to 359: the format of the last \<^verbatim>\<open>appendStringInfo\<close>, one definition for
  each of the three kernel functions it holds. The first has the conversion \<^verbatim>\<open>%s\<close>,
  replaced by the expression text: its format is the text before \<^verbatim>\<open>%s\<close> and the
  text after it.
\<close>

definition gpuscan_qual_cs_head :: string where
  "gpuscan_qual_cs_head =
      ''__kernel void\<newline>'' @
      ''gpuscan_qual_cs(__global kern_gpuscan *gpuscan,\<newline>'' @
      ''                __global kern_parambuf *kparams,\<newline>'' @
      ''                __global kern_column_store *kcs,\<newline>'' @
      ''                __global kern_toastbuf *toast,\<newline>'' @
      ''                __local void *local_workmem)\<newline>'' @
      ''{\<newline>'' @
      ''  pg_bool_t   rc;\<newline>'' @
      ''  cl_int      errcode;\<newline>'' @
      ''\<newline>'' @
      ''  gpuscan_local_init(local_workmem);\<newline>'' @
      ''  if (get_global_id(0) < kcs->nrows)\<newline>'' @
      ''    rc = ''"

definition gpuscan_qual_cs_tail :: string where
  "gpuscan_qual_cs_tail =
      '';\<newline>'' @
      ''  else\<newline>'' @
      ''    rc.isnull = CL_TRUE;\<newline>'' @
      ''  kern_set_error(!rc.isnull && rc.value != 0\<newline>'' @
      ''                 ? StromError_Success\<newline>'' @
      ''                 : StromError_RowFiltered);\<newline>'' @
      ''  gpuscan_writeback_result(gpuscan);\<newline>'' @
      ''}\<newline>'' @
      ''\<newline>''"

definition gpuscan_qual_cs_text :: "string \<Rightarrow> string" where
  "gpuscan_qual_cs_text expr_code = gpuscan_qual_cs_head @ expr_code @ gpuscan_qual_cs_tail"

definition gpuscan_qual_rs_prep_text :: string where
  "gpuscan_qual_rs_prep_text =
      ''__kernel void\<newline>'' @
      ''gpuscan_qual_rs_prep(__global kern_row_store *krs,\<newline>'' @
      ''                     __global kern_column_store *kcs)\<newline>'' @
      ''{\<newline>'' @
      ''  kern_row_to_column_prep(krs,kcs,\<newline>'' @
      ''                          lengthof(used_vars),\<newline>'' @
      ''                          used_vars);\<newline>'' @
      ''}\<newline>'' @
      ''\<newline>''"

definition gpuscan_qual_rs_text :: string where
  "gpuscan_qual_rs_text =
      ''__kernel void\<newline>'' @
      ''gpuscan_qual_rs(__global kern_gpuscan *gpuscan,\<newline>'' @
      ''                __global kern_parambuf *kparams,\<newline>'' @
      ''                __global kern_row_store *krs,\<newline>'' @
      ''                __global kern_column_store *kcs,\<newline>'' @
      ''                __local void *local_workmem)\<newline>'' @
      ''{\<newline>'' @
      ''  kern_row_to_column(krs,kcs,\<newline>'' @
      ''                     lengthof(used_vars),\<newline>'' @
      ''                     used_vars,\<newline>'' @
      ''                     local_workmem);\<newline>'' @
      ''  gpuscan_qual_cs(gpuscan,kparams,kcs,\<newline>'' @
      ''                  (kern_toastbuf *)krs,\<newline>'' @
      ''                  local_workmem);\<newline>'' @
      ''}\<newline>''"

text \<open>
  \<^verbatim>\<open>gpuscan_codegen_quals\<close>. The context the caller passes is overwritten with zeros
  before anything reads it; an empty qualifier list returns \<^verbatim>\<open>NULL\<close>. The result is
  the source text (or \<^verbatim>\<open>NULL\<close>) and the context as the function leaves it.
\<close>

definition gpuscan_codegen_quals ::
  "'q codegen_expression \<Rightarrow> devtype_catalog \<Rightarrow> 'q list \<Rightarrow> codegen_context
     \<Rightarrow> pg_error + (string option \<times> codegen_context)" where
  "gpuscan_codegen_quals pgstrom_codegen_expression dt quals context0 =
     (let context = zero_context in
      case quals of
        [] \<Rightarrow> Inr (None, context)
      | _ # _ \<Rightarrow>
        (case pgstrom_codegen_expression quals context of
           Inl e \<Rightarrow> Inl e
         | Inr (None, context') \<Rightarrow> Inl AssertFailed
         | Inr (Some expr_code, context') \<Rightarrow>
           (case put_params dt 0 [] (used_params context') of
              Inl e \<Rightarrow> Inl e
            | Inr str1 \<Rightarrow>
              (case put_vars dt 0 str1 (used_vars context') of
                 Inl e \<Rightarrow> Inl e
               | Inr str2 \<Rightarrow>
                 (case put_attnos True
                         (str2 @ ''\<newline>'' @ ''static __constant cl_ushort pg_used_vars[]={'')
                         (used_vars context') of
                    Inl e \<Rightarrow> Inl e
                  | Inr str3 \<Rightarrow>
                    Inr (Some (str3 @ ''};\<newline>\<newline>'' @
                               gpuscan_qual_cs_text expr_code @
                               gpuscan_qual_rs_prep_text @
                               gpuscan_qual_rs_text),
                         context'))))))"

subsection \<open>The layout of the generated source, in the spec's words\<close>

text \<open>
  Section 4.4 and section 6 of the spec: one macro \<^verbatim>\<open>KPARAM_<i>\<close> for the i-th used
  parameter, one macro \<^verbatim>\<open>KVAR_<i>\<close> for the i-th used variable, one constant array
  with the column ordinals of the used variables in index order, and the three entry
  points. These definitions follow the spec; the theorems compare them with
  \<^verbatim>\<open>gpuscan_codegen_quals\<close>.
\<close>

definition param_devtype :: "devtype_catalog \<Rightarrow> Node \<Rightarrow> devtype_info option" where
  "param_devtype dt n = (case n of Const t v \<Rightarrow> dt t | Param t p \<Rightarrow> dt t | _ \<Rightarrow> None)"

definition var_devtype :: "devtype_catalog \<Rightarrow> Node \<Rightarrow> devtype_info option" where
  "var_devtype dt n = (case n of Var t a \<Rightarrow> dt t | _ \<Rightarrow> None)"

definition kparam_macro :: "devtype_catalog \<Rightarrow> nat \<Rightarrow> Node \<Rightarrow> string" where
  "kparam_macro dt i n =
     (case param_devtype dt n of
        None \<Rightarrow> []
      | Some d \<Rightarrow> ''#define KPARAM_'' @ dec i @ [CHR 0x09] @
                  ''pg_'' @ type_ident d @ ''_param(kparams,'' @ dec i @ '')\<newline>'')"

definition kvar_macro :: "devtype_catalog \<Rightarrow> nat \<Rightarrow> Node \<Rightarrow> string" where
  "kvar_macro dt i n =
     (case var_devtype dt n of
        None \<Rightarrow> []
      | Some d \<Rightarrow> ''#define KVAR_'' @ dec i @ [CHR 0x09] @
                  ''pg_'' @ type_ident d @
                  (if type_is_varlena d then ''_vref(kcs,toast,'' else ''_vref(kcs,'') @
                  dec i @ '',get_global_id(0))\<newline>'')"

fun comma_sep :: "string list \<Rightarrow> string" where
  "comma_sep [] = []"
| "comma_sep [x] = x"
| "comma_sep (x # y # ys) = x @ '', '' @ comma_sep (y # ys)"

definition used_vars_array :: "nat list \<Rightarrow> string" where
  "used_vars_array attnos =
     ''\<newline>static __constant cl_ushort pg_used_vars[]={'' @
     comma_sep (map dec attnos) @ ''};\<newline>\<newline>''"

definition kernel_source_layout :: "devtype_catalog \<Rightarrow> string \<Rightarrow> codegen_context \<Rightarrow> string" where
  "kernel_source_layout dt code ctx =
     concat (map2 (kparam_macro dt) [0..<length (used_params ctx)] (used_params ctx)) @
     concat (map2 (kvar_macro dt) [0..<length (used_vars ctx)] (used_vars ctx)) @
     used_vars_array (map (\<lambda>n. nat (varattno n)) (used_vars ctx)) @
     gpuscan_qual_cs_text code @ gpuscan_qual_rs_prep_text @ gpuscan_qual_rs_text"

text \<open>How often a text occurs in another, overlapping occurrences counted.\<close>

fun occurrences :: "string \<Rightarrow> string \<Rightarrow> nat" where
  "occurrences pat [] = 0"
| "occurrences pat (c # cs) = (if prefix pat (c # cs) then 1 else 0) + occurrences pat cs"

section \<open>Symbols of a source text\<close>

text \<open>
  What a text refers to and what it declares, read off the text itself. An identifier
  is a maximal run of letters, digits and underscores; a symbol is an identifier that
  does not start with a digit (those are numbers). A phrase is a maximal run of
  identifier characters, blanks, tabs, newlines and \<^verbatim>\<open>*\<close>: it ends at any other
  punctuation.
\<close>

definition cl_digit :: "char \<Rightarrow> bool" where
  "cl_digit c = (c \<in> set ''0123456789'')"

definition cl_ident_char :: "char \<Rightarrow> bool" where
  "cl_ident_char c =
     (c \<in> set ''abcdefghijklmnopqrstuvwxyzABCDEFGHIJKLMNOPQRSTUVWXYZ_'' \<or> cl_digit c)"

definition cl_phrase_char :: "char \<Rightarrow> bool" where
  "cl_phrase_char c =
     (cl_ident_char c \<or> c \<in> set [CHR '' '', CHR 0x09, CHR ''\<newline>'', CHR ''*''])"

text \<open>The maximal runs of characters with \<open>P\<close> in a text; \<open>w\<close> is the run being read.\<close>

fun runs :: "(char \<Rightarrow> bool) \<Rightarrow> string \<Rightarrow> string \<Rightarrow> string list" where
  "runs P w [] = (if w = [] then [] else [w])"
| "runs P w (c # cs) =
     (if P c then runs P (w @ [c]) cs
      else (if w = [] then [] else [w]) @ runs P [] cs)"

definition idents :: "string \<Rightarrow> string list" where
  "idents s = runs cl_ident_char [] s"

definition symbols :: "string \<Rightarrow> string list" where
  "symbols s = filter (\<lambda>w. \<not> cl_digit (hd w)) (idents s)"

definition phrases :: "string \<Rightarrow> string list" where
  "phrases s = runs cl_phrase_char [] s"

text \<open>
  In the kernel language a name is declared after its type or qualifiers (or after
  \<^verbatim>\<open>#define\<close>), with nothing but blanks and \<^verbatim>\<open>*\<close> between. So every name a text
  declares is a symbol of a phrase other than the phrase's first: \<open>declared_names\<close>
  holds every declared name (and, for a type written before a name, more).
\<close>

definition declared_names :: "string \<Rightarrow> string list" where
  "declared_names s = concat (map (\<lambda>p. tl (symbols p)) (phrases s))"

text \<open>The words of the kernel language and of its preprocessor that the generator writes.\<close>

definition kernel_language_words :: "string list" where
  "kernel_language_words =
     [''define'', ''__kernel'', ''__global'', ''__local'', ''__constant'', ''static'',
      ''void'', ''if'', ''else'', ''get_global_id'']"

text \<open>
  A text is self-contained when each symbol in it is a word of the language or a name
  the text declares (the arguments of its functions are among those).
\<close>

definition self_contained :: "string \<Rightarrow> bool" where
  "self_contained s =
     list_all (\<lambda>w. w \<in> set kernel_language_words \<or> w \<in> set (declared_names s)) (symbols s)"

text \<open>
  The runs of a text that are complete before its end, and the run still open at its
  end: with them the runs of a long text are found part by part.
\<close>

fun closed_runs :: "(char \<Rightarrow> bool) \<Rightarrow> string \<Rightarrow> string \<Rightarrow> string list" where
  "closed_runs P w [] = []"
| "closed_runs P w (c # cs) =
     (if P c then closed_runs P (w @ [c]) cs
      else (if w = [] then [] else [w]) @ closed_runs P [] cs)"

fun pending_run :: "(char \<Rightarrow> bool) \<Rightarrow> string \<Rightarrow> string \<Rightarrow> string" where
  "pending_run P w [] = w"
| "pending_run P w (c # cs) = (if P c then pending_run P (w @ [c]) cs else pending_run P [] cs)"

text \<open>
  The names the generated source declares, by kind, and the symbols it takes from the
  device runtime it is compiled with.
\<close>

definition macro_names :: "codegen_context \<Rightarrow> string list" where
  "macro_names ctx =
     map (\<lambda>i. ''KPARAM_'' @ dec i) [0..<length (used_params ctx)] @
     map (\<lambda>i. ''KVAR_'' @ dec i) [0..<length (used_vars ctx)]"

definition entry_point_names :: "string list" where
  "entry_point_names = [''gpuscan_qual_cs'', ''gpuscan_qual_rs_prep'', ''gpuscan_qual_rs'']"

definition entry_point_arguments :: "string list" where
  "entry_point_arguments = [''gpuscan'', ''kparams'', ''kcs'', ''toast'', ''local_workmem'', ''krs'']"

definition entry_point_locals :: "string list" where
  "entry_point_locals = [''rc'', ''errcode'']"

definition device_runtime_symbols :: "string list" where
  "device_runtime_symbols =
     [''cl_ushort'', ''cl_int'', ''CL_TRUE'', ''pg_bool_t'', ''isnull'', ''value'',
      ''kern_gpuscan'', ''kern_parambuf'', ''kern_column_store'', ''kern_toastbuf'',
      ''kern_row_store'', ''nrows'', ''lengthof'',
      ''gpuscan_local_init'', ''gpuscan_writeback_result'', ''kern_set_error'',
      ''StromError_Success'', ''StromError_RowFiltered'',
      ''kern_row_to_column_prep'', ''kern_row_to_column'']"

definition accessor_symbols :: "devtype_catalog \<Rightarrow> codegen_context \<Rightarrow> string list" where
  "accessor_symbols dt ctx =
     concat (map (\<lambda>n. case param_devtype dt n of None \<Rightarrow> []
                       | Some d \<Rightarrow> symbols (''pg_'' @ type_ident d @ ''_param''))
               (used_params ctx)) @
     concat (map (\<lambda>n. case var_devtype dt n of None \<Rightarrow> []
                       | Some d \<Rightarrow> symbols (''pg_'' @ type_ident d @ ''_vref''))
               (used_vars ctx))"

text \<open>
  The symbols the generated source may hold: words of the language, names it declares,
  symbols of the device runtime, of the type accessors and of the expression text.
  Nothing is said of \<^verbatim>\<open>used_vars\<close>, which the row-store kernels name and no line
  declares (the array is \<^verbatim>\<open>pg_used_vars\<close>).
\<close>

definition allowed_symbol :: "devtype_catalog \<Rightarrow> string \<Rightarrow> codegen_context \<Rightarrow> string \<Rightarrow> bool" where
  "allowed_symbol dt code ctx w =
     (w \<in> set kernel_language_words \<or> w \<in> set (macro_names ctx) \<or> w = ''pg_used_vars''
      \<or> w \<in> set entry_point_names \<or> w \<in> set entry_point_arguments
      \<or> w \<in> set entry_point_locals \<or> w \<in> set device_runtime_symbols
      \<or> w \<in> set (accessor_symbols dt ctx) \<or> w \<in> set (symbols code)
      \<or> w = ''used_vars'')"

text \<open>The names declared in a list of phrases.\<close>

definition declared_of :: "string list \<Rightarrow> string list" where
  "declared_of ps = concat (map (\<lambda>p. tl (symbols p)) ps)"

subsection \<open>A worked input\<close>

text \<open>
  Two conjuncts over an \<^verbatim>\<open>int4\<close> column (fixed width) and a \<^verbatim>\<open>text\<close> column
  (variable length), with one constant and one parameter placeholder. The expression
  text stands for what \<^verbatim>\<open>pgstrom_codegen_expression\<close> returns for them.
\<close>

definition example_catalog :: devtype_catalog where
  "example_catalog t =
     (if t = 23 then Some \<lparr>type_ident = ''int4'', type_is_varlena = False\<rparr>
      else if t = 25 then Some \<lparr>type_ident = ''text'', type_is_varlena = True\<rparr>
      else None)"

definition example_context :: codegen_context where
  "example_context =
     \<lparr>used_params = [Const 23 5, Param 25 1], used_vars = [Var 23 1, Var 25 3], extra_flags = 0\<rparr>"

definition example_macros :: string where
  "example_macros =
      ''#define KPARAM_0'' @ [CHR 0x09] @ ''pg_int4_param(kparams,0)\<newline>'' @
      ''#define KPARAM_1'' @ [CHR 0x09] @ ''pg_text_param(kparams,1)\<newline>'' @
      ''#define KVAR_0'' @ [CHR 0x09] @ ''pg_int4_vref(kcs,0,get_global_id(0))\<newline>'' @
      ''#define KVAR_1'' @ [CHR 0x09] @ ''pg_text_vref(kcs,toast,1,get_global_id(0))\<newline>'' @
      ''\<newline>'' @
      ''static __constant cl_ushort pg_used_vars[]={1, 3};\<newline>'' @
      ''\<newline>''"

definition example_code :: string where
  "example_code = ''(pgfn_int4gt(KVAR_0,KPARAM_0) && pgfn_texteq(KVAR_1,KPARAM_1))''"

definition example_expression :: "RestrictInfo codegen_expression" where
  "example_expression quals context =
     Inr (Some example_code,
          context\<lparr>used_params := [Const 23 5, Param 25 1], used_vars := [Var 23 1, Var 25 3]\<rparr>)"

definition example_quals :: "RestrictInfo list" where
  "example_quals =
     [\<lparr>clause = OpExpr 521 16 [Var 23 1, Const 23 5]\<rparr>,
      \<lparr>clause = OpExpr 98 16 [Var 25 3, Param 25 1]\<rparr>]"

text \<open>The source text that \<^verbatim>\<open>gpuscan_codegen_quals\<close> returns for this input.\<close>

definition example_source :: string where
  "example_source =
      example_macros @ gpuscan_qual_cs_text example_code @
      gpuscan_qual_rs_prep_text @ gpuscan_qual_rs_text"

section \<open>Plan node\<close>

text \<open>
  Lists, bitmap sets and strings are objects in memory, and a plan node holds pointers
  to them. The store is a list of allocated objects with their addresses; an
  allocation takes the next unused address. A \<^verbatim>\<open>NULL\<close> pointer is \<open>None\<close>.
\<close>

type_synonym addr = nat

datatype obj =
    ListObj "Node list"
  | BitmapObj "AttrNumber set"
  | StringObj string

record store =
  objs :: "(addr \<times> obj) list"
  next_addr :: addr

definition deref :: "store \<Rightarrow> addr option \<Rightarrow> obj option" where
  "deref h p = (case p of None \<Rightarrow> None | Some a \<Rightarrow> map_of (objs h) a)"

definition alloc :: "store \<Rightarrow> obj \<Rightarrow> addr \<times> store" where
  "alloc h v = (next_addr h, h\<lparr>objs := (next_addr h, v) # objs h, next_addr := Suc (next_addr h)\<rparr>)"

text \<open>
  The fields of \<^verbatim>\<open>GpuScanPlan\<close>, prefixed (the path node and the context have fields
  of the same names). The common part \<^verbatim>\<open>cplan\<close> is kept abstract.
\<close>

record 'c GpuScanPlan =
  gsp_cplan :: 'c
  gsp_scanrelid :: nat
  gsp_kern_source :: "addr option"
  gsp_extra_flags :: int
  gsp_used_params :: "addr option"
  gsp_used_vars :: "addr option"
  gsp_dev_clauses :: "addr option"
  gsp_dev_attrs :: "addr option"
  gsp_host_attrs :: "addr option"

text \<open>
  \<^verbatim>\<open>copyObject\<close> on a list and \<^verbatim>\<open>bms_copy\<close> belong to the host executor: both return
  \<^verbatim>\<open>NULL\<close> for \<^verbatim>\<open>NULL\<close> and otherwise a newly allocated object with the contents of
  the one pointed to (for a list, copies of its nodes too: a node is held by value
  here). A pointer to no object of the expected kind has no defined result (\<open>None\<close>).
\<close>

definition copyObject :: "store \<Rightarrow> addr option \<Rightarrow> (addr option \<times> store) option" where
  "copyObject h p =
     (case p of
        None \<Rightarrow> Some (None, h)
      | Some a \<Rightarrow>
        (case map_of (objs h) a of
           Some (ListObj ns) \<Rightarrow> (case alloc h (ListObj ns) of (a', h') \<Rightarrow> Some (Some a', h'))
         | _ \<Rightarrow> None))"

definition bms_copy :: "store \<Rightarrow> addr option \<Rightarrow> (addr option \<times> store) option" where
  "bms_copy h p =
     (case p of
        None \<Rightarrow> Some (None, h)
      | Some a \<Rightarrow>
        (case map_of (objs h) a of
           Some (BitmapObj s) \<Rightarrow> (case alloc h (BitmapObj s) of (a', h') \<Rightarrow> Some (Some a', h'))
         | _ \<Rightarrow> None))"

text \<open>
  \<^verbatim>\<open>gpuscan_copy_plan\<close>. \<^verbatim>\<open>palloc\<close> does not clear the memory it returns: the new
  node starts as whatever the memory held, \<open>junk\<close>. \<^verbatim>\<open>CopyCustomPlanCommon\<close>, of the
  host executor, fills the common part from the original's. The assignments follow in
  the order of the source; there is none to \<^verbatim>\<open>kern_source\<close>.
\<close>

definition gpuscan_copy_plan ::
  "('c \<Rightarrow> 'c) \<Rightarrow> 'c GpuScanPlan \<Rightarrow> 'c GpuScanPlan \<Rightarrow> store
     \<Rightarrow> ('c GpuScanPlan \<times> store) option" where
  "gpuscan_copy_plan CopyCustomPlanCommon from junk h =
     (let newnode = junk;
          newnode = newnode\<lparr>gsp_cplan := CopyCustomPlanCommon (gsp_cplan from)\<rparr>;
          newnode = newnode\<lparr>gsp_scanrelid := gsp_scanrelid from\<rparr>
      in case copyObject h (gsp_used_params from) of
           None \<Rightarrow> None
         | Some (p1, h1) \<Rightarrow>
           (case copyObject h1 (gsp_used_vars from) of
              None \<Rightarrow> None
            | Some (p2, h2) \<Rightarrow>
              (let newnode = newnode\<lparr>gsp_used_params := p1, gsp_used_vars := p2\<rparr>;
                   newnode = newnode\<lparr>gsp_extra_flags := gsp_extra_flags from\<rparr>;
                   newnode = newnode\<lparr>gsp_dev_clauses := gsp_dev_clauses from\<rparr>
               in case bms_copy h2 (gsp_dev_attrs from) of
                    None \<Rightarrow> None
                  | Some (p3, h3) \<Rightarrow>
                    (case bms_copy h3 (gsp_host_attrs from) of
                       None \<Rightarrow> None
                     | Some (p4, h4) \<Rightarrow>
                       Some (newnode\<lparr>gsp_dev_attrs := p3, gsp_host_attrs := p4\<rparr>, h4)))))"

text \<open>
  What the copy needs of its input: every address in use lies below the next address
  to allocate, and the four pointers that are copied are \<^verbatim>\<open>NULL\<close> or point to an
  object of their kind.
\<close>

definition store_wf :: "store \<Rightarrow> bool" where
  "store_wf h = list_all (\<lambda>(a, v). a < next_addr h) (objs h)"

definition is_list_ptr :: "store \<Rightarrow> addr option \<Rightarrow> bool" where
  "is_list_ptr h p =
     (case p of None \<Rightarrow> True
      | Some a \<Rightarrow> (case map_of (objs h) a of Some (ListObj ns) \<Rightarrow> True | _ \<Rightarrow> False))"

definition is_bitmap_ptr :: "store \<Rightarrow> addr option \<Rightarrow> bool" where
  "is_bitmap_ptr h p =
     (case p of None \<Rightarrow> True
      | Some a \<Rightarrow> (case map_of (objs h) a of Some (BitmapObj s) \<Rightarrow> True | _ \<Rightarrow> False))"

text \<open>A pointer is new to a store when it is \<^verbatim>\<open>NULL\<close> or addresses no object of it.\<close>

definition fresh_in :: "store \<Rightarrow> addr option \<Rightarrow> bool" where
  "fresh_in h p = (case p of None \<Rightarrow> True | Some a \<Rightarrow> map_of (objs h) a = None)"

text \<open>That one store keeps every object of another at its address.\<close>

definition store_extends :: "store \<Rightarrow> store \<Rightarrow> bool" where
  "store_extends h h' = (\<forall>a v. map_of (objs h) a = Some v \<longrightarrow> map_of (objs h') a = Some v)"

subsection \<open>A worked plan node\<close>

definition example_store :: store where
  "example_store =
     \<lparr>objs = [(0, ListObj [Const 23 5, Param 25 1]),
              (1, ListObj [Var 23 1, Var 25 3]),
              (2, ListObj [OpExpr 521 16 [Var 23 1, Const 23 5], OpExpr 98 16 [Var 25 3, Param 25 1]]),
              (3, BitmapObj {1, 3}),
              (4, BitmapObj {1, 2, 3}),
              (5, StringObj ''#define KPARAM_0'')],
      next_addr = 6\<rparr>"

definition example_plan :: "unit GpuScanPlan" where
  "example_plan =
     \<lparr>gsp_cplan = (), gsp_scanrelid = 1, gsp_kern_source = Some 5, gsp_extra_flags = 0,
      gsp_used_params = Some 0, gsp_used_vars = Some 1, gsp_dev_clauses = Some 2,
      gsp_dev_attrs = Some 3, gsp_host_attrs = Some 4\<rparr>"

text \<open>Memory as \<^verbatim>\<open>palloc\<close> may return it: every field holds something left over.\<close>

definition example_junk :: "unit GpuScanPlan" where
  "example_junk =
     \<lparr>gsp_cplan = (), gsp_scanrelid = 77, gsp_kern_source = Some 4242, gsp_extra_flags = - 1,
      gsp_used_params = Some 17, gsp_used_vars = None, gsp_dev_clauses = Some 3,
      gsp_dev_attrs = None, gsp_host_attrs = Some 0\<rparr>"

section \<open>Scan execution\<close>

definition GpuScanMode_CacheOnlyScan :: int where "GpuScanMode_CacheOnlyScan = 1"
definition GpuScanMode_HybridScan :: int where "GpuScanMode_HybridScan = 2"
definition GpuScanMode_HeapOnlyScan :: int where "GpuScanMode_HeapOnlyScan = 3"
definition GpuScanMode_CreateCache :: int where "GpuScanMode_CreateCache = 4"

type_synonym handle = nat

text \<open>
  The device part of \<^verbatim>\<open>GpuScanState\<close>. \<^verbatim>\<open>palloc0\<close> gives a state of zeros: mode 0,
  \<^verbatim>\<open>NULL\<close> handles, key 0, empty chunk lists.
\<close>

record GpuScanState =
  scan_mode :: int
  shmcontext :: "handle option"
  mqueue :: "handle option"
  parambuf :: "handle option"
  dprog_key :: nat
  ready_chunks :: "handle list"
  free_chunks :: "handle list"

definition palloc0_GpuScanState :: GpuScanState where
  "palloc0_GpuScanState =
     \<lparr>scan_mode = 0, shmcontext = None, mqueue = None, parambuf = None, dprog_key = 0,
      ready_chunks = [], free_chunks = []\<rparr>"

text \<open>
  The three resources of a scan come from functions defined in other files of the
  extension; what each call returns is given by the environment (\<open>None\<close> is \<^verbatim>\<open>NULL\<close>). To say what
  is held when \<^verbatim>\<open>gpuscan_begin\<close> leaves, the model records every acquisition and
  every release it makes, in order.
\<close>

record gpu_env =
  pgstrom_shmem_context_create :: "handle option"
  pgstrom_create_queue :: "handle option"
  pgstrom_create_parambuf :: "handle \<Rightarrow> handle option"
  pgstrom_get_devprog_key :: "addr \<Rightarrow> int \<Rightarrow> nat"

datatype resource = ShmContext handle | MsgQueue handle | ParamBuf handle

datatype event = Acquire resource | Release resource

text \<open>
  \<^verbatim>\<open>gpuscan_begin\<close> from line 613 on (the lines before set up the host executor's
  part of the state). \<^verbatim>\<open>ereport(ERROR, ...)\<close> leaves the function at once; the result
  of \<^verbatim>\<open>pgstrom_create_parambuf\<close> is stored without a test.
\<close>

definition gpuscan_begin ::
  "gpu_env \<Rightarrow> 'c GpuScanPlan \<Rightarrow> (pg_error + GpuScanState) \<times> event list" where
  "gpuscan_begin env gsplan =
     (let gss = palloc0_GpuScanState;
          gss = gss\<lparr>scan_mode := GpuScanMode_HeapOnlyScan\<rparr>
      in case pgstrom_shmem_context_create env of
           None \<Rightarrow>
             (Inl (EreportError ERRCODE_OUT_OF_MEMORY ''failed to create shared memory context''), [])
         | Some shm \<Rightarrow>
           (let gss = gss\<lparr>shmcontext := Some shm\<rparr>;
                events = [Acquire (ShmContext shm)]
            in case pgstrom_create_queue env of
                 None \<Rightarrow>
                   (Inl (EreportError ERRCODE_OUT_OF_MEMORY ''failed to create message queue''),
                    events)
               | Some q \<Rightarrow>
                 (let gss = gss\<lparr>mqueue := Some q\<rparr>;
                      events = events @ [Acquire (MsgQueue q)];
                      gss = gss\<lparr>parambuf := pgstrom_create_parambuf env shm\<rparr>;
                      events = events @ (case pgstrom_create_parambuf env shm of
                                           None \<Rightarrow> []
                                         | Some b \<Rightarrow> [Acquire (ParamBuf b)]);
                      gss = (case gsp_kern_source gsplan of
                               Some src \<Rightarrow>
                                 gss\<lparr>dprog_key := pgstrom_get_devprog_key env src
                                                      (gsp_extra_flags gsplan)\<rparr>
                             | None \<Rightarrow> gss\<lparr>dprog_key := 0\<rparr>)
                  in (Inr gss, events))))"

text \<open>
  The resources of a record of events that are still held: acquired, and not released
  since.
\<close>

fun held :: "event list \<Rightarrow> resource list" where
  "held [] = []"
| "held (Acquire r # es) = r # held es"
| "held (Release r # es) = removeAll r (held es)"

definition held_after :: "event list \<Rightarrow> resource list" where
  "held_after es = held (rev es)"

fun releases_of :: "resource \<Rightarrow> event list \<Rightarrow> nat" where
  "releases_of r [] = 0"
| "releases_of r (e # es) = (if e = Release r then 1 else 0) + releases_of r es"

text \<open>
  The other entry points of the scan. The bodies of \<^verbatim>\<open>gpuscan_exec\<close> and
  \<^verbatim>\<open>gpuscan_end\<close> are empty: they leave the state as it is (the source gives
  \<^verbatim>\<open>gpuscan_exec\<close> no value to return). \<^verbatim>\<open>gpuscan_exec_multi\<close> and
  \<^verbatim>\<open>gpuscan_rescan\<close> are one \<^verbatim>\<open>elog(ERROR, ...)\<close> each.
\<close>

definition gpuscan_exec :: "GpuScanState \<Rightarrow> pg_error + GpuScanState" where
  "gpuscan_exec node = Inr node"

definition gpuscan_exec_multi :: "GpuScanState \<Rightarrow> pg_error + (Node \<times> GpuScanState)" where
  "gpuscan_exec_multi node = Inl (ElogError ''not implemented yet'')"

definition gpuscan_end :: "GpuScanState \<Rightarrow> pg_error + GpuScanState" where
  "gpuscan_end node = Inr node"

definition gpuscan_rescan :: "GpuScanState \<Rightarrow> pg_error + GpuScanState" where
  "gpuscan_rescan node = Inl (ElogError ''not implemented yet'')"

text \<open>
  A scan after its initialization is a sequence of calls of these entry points by the
  executor; it stops at the first error. \<open>scan_states\<close> lists the state after each
  call that returns.
\<close>

datatype scan_call = ExecCustomPlan | MultiExecCustomPlan | EndCustomPlan | ReScanCustomPlan

definition scan_step :: "scan_call \<Rightarrow> GpuScanState \<Rightarrow> pg_error + GpuScanState" where
  "scan_step c node =
     (case c of
        ExecCustomPlan \<Rightarrow> gpuscan_exec node
      | MultiExecCustomPlan \<Rightarrow> map_sum id snd (gpuscan_exec_multi node)
      | EndCustomPlan \<Rightarrow> gpuscan_end node
      | ReScanCustomPlan \<Rightarrow> gpuscan_rescan node)"

fun scan_states :: "scan_call list \<Rightarrow> GpuScanState \<Rightarrow> GpuScanState list" where
  "scan_states [] node = []"
| "scan_states (c # cs) node =
     (case scan_step c node of
        Inl e \<Rightarrow> []
      | Inr node' \<Rightarrow> node' # scan_states cs node')"

text \<open>
  The selection of the strategy in the spec's words (section 4.5, and the comment above
  the four mode constants in the source): cache-only when every column of the
  qualifiers and of the target list is on the columnar cache, hybrid when those of
  the qualifiers are and those of the target list are not, heap-only otherwise, and
  cache-populating when a heap-only scan also builds a cache entry. No function of
  the source computes this; the definition is there to be compared with
  \<^verbatim>\<open>gpuscan_begin\<close>.
\<close>

definition scan_mode_by_residency ::
  "AttrNumber set \<Rightarrow> bool \<Rightarrow> AttrNumber set \<Rightarrow> AttrNumber set \<Rightarrow> int" where
  "scan_mode_by_residency cached populate qual_attrs tlist_attrs =
     (if qual_attrs \<union> tlist_attrs \<subseteq> cached then GpuScanMode_CacheOnlyScan
      else if qual_attrs \<subseteq> cached then GpuScanMode_HybridScan
      else if populate then GpuScanMode_CreateCache
      else GpuScanMode_HeapOnlyScan)"

definition attrs_at :: "store \<Rightarrow> addr option \<Rightarrow> AttrNumber set" where
  "attrs_at h p = (case deref h p of Some (BitmapObj s) \<Rightarrow> s | _ \<Rightarrow> {})"

definition example_env :: gpu_env where
  "example_env =
     \<lparr>pgstrom_shmem_context_create = Some 7,
      pgstrom_create_queue = Some 8,
      pgstrom_create_parambuf = (\<lambda>shm. Some 9),
      pgstrom_get_devprog_key = (\<lambda>src flags. 1000 + src)\<rparr>"

section \<open>Lowering of the qualifiers\<close>

text \<open>
  An expression tree as it lies in memory: every node with the address it is allocated
  at. A node that two expressions share has one address in both; a copy of it has the
  same fields at another address. Two trees are structurally equal (the host's
  \<^verbatim>\<open>equal()\<close>) when \<open>erase\<close>, which drops the addresses, gives the same tree.
\<close>

datatype pnode =
    PConst addr Oid int
  | PParam addr Oid int
  | PVar addr Oid AttrNumber
  | POpExpr addr Oid Oid "pnode list"
  | PFuncExpr addr Oid Oid "pnode list"


text \<open>
  Modelled from the spec: \<^verbatim>\<open>pgstrom_codegen_expression\<close> is defined in a file of the
  extension that is not at hand. The spec (section 4.4, step 1, and the code generation
  context of section 3) gives it as: the conjunction of the qualifiers is lowered into
  one boolean expression, and the expression text is emitted recursively; every
  constant or parameter node goes into the used-params list and every column reference
  into the used-vars list, with a 0-based index assigned on first occurrence and no
  duplicates, two nodes being the same entry when they are structurally equal; the
  index is what the text refers to, under the macro names \<^verbatim>\<open>KPARAM_<index>\<close> and
  \<^verbatim>\<open>KVAR_<index>\<close>; a node with no device-side mapping raises a fatal error.

  The spec does not give the syntax of the kernel dialect. It is a parameter: how the
  application of an operator or function to the texts of its arguments is written (no
  result for one without a device-side mapping), and how the conjunction is written. The
  spec does not say how the lowering computes the extra flags; they are left as they
  are.
\<close>

record dialect =
  application :: "Oid \<Rightarrow> (string list \<Rightarrow> string) option"
  conjunction :: "string list \<Rightarrow> string"

fun first_index :: "Node \<Rightarrow> Node list \<Rightarrow> nat option" where
  "first_index n [] = None"
| "first_index n (m # ms) =
     (if m = n then Some 0
      else case first_index n ms of None \<Rightarrow> None | Some i \<Rightarrow> Some (Suc i))"

definition use_param :: "Node \<Rightarrow> codegen_context \<Rightarrow> string \<times> codegen_context" where
  "use_param n context =
     (case first_index n (used_params context) of
        Some i \<Rightarrow> (''KPARAM_'' @ dec i, context)
      | None \<Rightarrow> (''KPARAM_'' @ dec (length (used_params context)),
                 context\<lparr>used_params := lappend (used_params context) n\<rparr>))"

definition use_var :: "Node \<Rightarrow> codegen_context \<Rightarrow> string \<times> codegen_context" where
  "use_var n context =
     (case first_index n (used_vars context) of
        Some i \<Rightarrow> (''KVAR_'' @ dec i, context)
      | None \<Rightarrow> (''KVAR_'' @ dec (length (used_vars context)),
                 context\<lparr>used_vars := lappend (used_vars context) n\<rparr>))"

fun lower_expression ::
      "dialect \<Rightarrow> pnode \<Rightarrow> codegen_context \<Rightarrow> pg_error + (string \<times> codegen_context)"
  and lower_arguments ::
      "dialect \<Rightarrow> pnode list \<Rightarrow> codegen_context \<Rightarrow> pg_error + (string list \<times> codegen_context)"
where
  "lower_expression dia (PConst a t v) context = Inr (use_param (Const t v) context)"
| "lower_expression dia (PParam a t p) context = Inr (use_param (Param t p) context)"
| "lower_expression dia (PVar a t n) context = Inr (use_var (Var t n) context)"
| "lower_expression dia (POpExpr a f r as) context =
     (case application dia f of
        None \<Rightarrow> Inl (ElogError ''no device-side mapping'')
      | Some render \<Rightarrow>
        (case lower_arguments dia as context of
           Inl e \<Rightarrow> Inl e
         | Inr (texts, context') \<Rightarrow> Inr (render texts, context')))"
| "lower_expression dia (PFuncExpr a f r as) context =
     (case application dia f of
        None \<Rightarrow> Inl (ElogError ''no device-side mapping'')
      | Some render \<Rightarrow>
        (case lower_arguments dia as context of
           Inl e \<Rightarrow> Inl e
         | Inr (texts, context') \<Rightarrow> Inr (render texts, context')))"
| "lower_arguments dia [] context = Inr ([], context)"
| "lower_arguments dia (p # ps) context =
     (case lower_expression dia p context of
        Inl e \<Rightarrow> Inl e
      | Inr (str, context') \<Rightarrow>
        (case lower_arguments dia ps context' of
           Inl e \<Rightarrow> Inl e
         | Inr (texts, context'') \<Rightarrow> Inr (str # texts, context'')))"

definition pgstrom_codegen_expression :: "dialect \<Rightarrow> pnode codegen_expression" where
  "pgstrom_codegen_expression dia quals context =
     (case lower_arguments dia quals context of
        Inl e \<Rightarrow> Inl e
      | Inr (texts, context') \<Rightarrow> Inr (Some (conjunction dia texts), context'))"


subsection \<open>Two inputs that are structurally equal\<close>







section \<open>Cost estimator\<close>














section \<open>Properties of the classifier\<close>

lemma fold_pull_union:
  assumes "\<And>n s. n \<in> set ns \<Longrightarrow> pull_varattnos n s = s \<union> pull_varattnos n {}"
  shows "fold pull_varattnos ns s = s \<union> (\<Union>n\<in>set ns. pull_varattnos n {})"
  using assms
proof (induction ns arbitrary: s)
  case Nil
  show ?case by simp
next
  case (Cons n ns)
  have step: "pull_varattnos n s = s \<union> pull_varattnos n {}"
    by (rule Cons.prems) simp
  have rest: "fold pull_varattnos ns (pull_varattnos n s) =
      pull_varattnos n s \<union> (\<Union>m\<in>set ns. pull_varattnos m {})"
    by (rule Cons.IH) (rule Cons.prems, simp)
  have "fold pull_varattnos (n # ns) s = fold pull_varattnos ns (pull_varattnos n s)"
    by simp
  also have "\<dots> = (s \<union> pull_varattnos n {}) \<union> (\<Union>m\<in>set ns. pull_varattnos m {})"
    unfolding rest by (subst step) (rule refl)
  also have "\<dots> = s \<union> (\<Union>m\<in>set (n # ns). pull_varattnos m {})"
    by auto
  finally show ?case .
qed

lemma pull_varattnos_union: "pull_varattnos n s = s \<union> pull_varattnos n {}"
proof (induction n arbitrary: s)
  case (OpExpr f r as)
  have a: "\<And>s. fold pull_varattnos as s = s \<union> (\<Union>n\<in>set as. pull_varattnos n {})"
    by (rule fold_pull_union) (rule OpExpr)
  have "pull_varattnos (OpExpr f r as) s = s \<union> (\<Union>n\<in>set as. pull_varattnos n {})"
    by (simp only: pull_varattnos.simps a)
  moreover have "pull_varattnos (OpExpr f r as) {} = (\<Union>n\<in>set as. pull_varattnos n {})"
    by (simp only: pull_varattnos.simps a [of "{}"]) simp
  ultimately show ?case by simp
next
  case (FuncExpr f r as)
  have a: "\<And>s. fold pull_varattnos as s = s \<union> (\<Union>n\<in>set as. pull_varattnos n {})"
    by (rule fold_pull_union) (rule FuncExpr)
  have "pull_varattnos (FuncExpr f r as) s = s \<union> (\<Union>n\<in>set as. pull_varattnos n {})"
    by (simp only: pull_varattnos.simps a)
  moreover have "pull_varattnos (FuncExpr f r as) {} = (\<Union>n\<in>set as. pull_varattnos n {})"
    by (simp only: pull_varattnos.simps a [of "{}"]) simp
  ultimately show ?case by simp
qed auto

lemma pull_varattnos_of: "pull_varattnos n s = s \<union> varattnos_of n"
  unfolding varattnos_of_def by (rule pull_varattnos_union)

lemma fold_pull_varattnos_of:
  "fold pull_varattnos ns s = s \<union> (\<Union>n\<in>set ns. varattnos_of n)"
  unfolding varattnos_of_def by (rule fold_pull_union) (rule pull_varattnos_union)

lemma classify_loop_dev_quals:
  "dev_quals (classify_loop avail p xs) = dev_quals p @ filter (\<lambda>ri. avail (clause ri)) xs"
  by (induction xs arbitrary: p) (simp_all add: classify_rinfo_def lappend_def)

lemma classify_loop_host_quals:
  "host_quals (classify_loop avail p xs) = host_quals p @ filter (\<lambda>ri. \<not> avail (clause ri)) xs"
  by (induction xs arbitrary: p) (simp_all add: classify_rinfo_def lappend_def)

lemma classify_loop_dev_attrs:
  "dev_attrs (classify_loop avail p xs) =
     dev_attrs p \<union> (\<Union>ri\<in>set (filter (\<lambda>ri. avail (clause ri)) xs). varattnos_of (clause ri))"
proof (induction xs arbitrary: p)
  case Nil
  show ?case by simp
next
  case (Cons x xs)
  show ?case
    unfolding classify_loop.simps Cons.IH
    by (auto simp: classify_rinfo_def pull_varattnos_of [of _ "dev_attrs p"])
qed

lemma classify_loop_host_attrs:
  "host_attrs (classify_loop avail p xs) =
     host_attrs p \<union> (\<Union>ri\<in>set (filter (\<lambda>ri. \<not> avail (clause ri)) xs). varattnos_of (clause ri))"
proof (induction xs arbitrary: p)
  case Nil
  show ?case by simp
next
  case (Cons x xs)
  show ?case
    unfolding classify_loop.simps Cons.IH
    by (auto simp: classify_rinfo_def pull_varattnos_of [of _ "host_attrs p"])
qed

lemma mset_filter_split: "mset (filter P xs) + mset (filter (\<lambda>x. \<not> P x) xs) = mset xs"
  by (induction xs) simp_all

text \<open>
  Claim C1. For every restriction list, the classifier puts each conjunct in exactly
  one of \<^verbatim>\<open>dev_quals\<close> and \<^verbatim>\<open>host_quals\<close>: the two groups together are the input as a
  multiset (nothing dropped, nothing duplicated), their lengths add up to the input's,
  no conjunct is in both, and each group is a subsequence of the input, so the relative
  order of the input is kept inside each group. The capability test is any predicate on
  expressions.
\<close>

theorem classifier_partition:
  "mset (dev_quals (gpuscan_add_scan_path avail quals tlist))
     + mset (host_quals (gpuscan_add_scan_path avail quals tlist)) = mset quals
   \<and> length (dev_quals (gpuscan_add_scan_path avail quals tlist))
     + length (host_quals (gpuscan_add_scan_path avail quals tlist)) = length quals
   \<and> set (dev_quals (gpuscan_add_scan_path avail quals tlist))
     \<inter> set (host_quals (gpuscan_add_scan_path avail quals tlist)) = {}
   \<and> subseq (dev_quals (gpuscan_add_scan_path avail quals tlist)) quals
   \<and> subseq (host_quals (gpuscan_add_scan_path avail quals tlist)) quals"
proof -
  let ?P = "\<lambda>ri. avail (clause ri)"
  have d: "dev_quals (gpuscan_add_scan_path avail quals tlist) = filter ?P quals"
    by (simp add: gpuscan_add_scan_path_def Let_def classify_loop_dev_quals)
  have h: "host_quals (gpuscan_add_scan_path avail quals tlist) = filter (\<lambda>ri. \<not> ?P ri) quals"
    by (simp add: gpuscan_add_scan_path_def Let_def classify_loop_host_quals)
  have m: "mset (filter ?P quals) + mset (filter (\<lambda>ri. \<not> ?P ri) quals) = mset quals"
    by (rule mset_filter_split)
  have l: "length (filter ?P quals) + length (filter (\<lambda>ri. \<not> ?P ri) quals) = length quals"
    by (rule sum_length_filter_compl)
  have i: "set (filter ?P quals) \<inter> set (filter (\<lambda>ri. \<not> ?P ri) quals) = {}"
    by auto
  show ?thesis
    unfolding d h using m l i by simp
qed

lemma available_iff_every_node:
  "pgstrom_codegen_available_expression dt df n = list_all (node_has_mapping dt df) (subnodes n)"
  by (induction n) (auto simp: list_all_iff)

text \<open>
  Claim C2. With the capability test "every node of the expression tree has a
  device-side mapping", the classifier routes exactly the conjuncts that pass the test
  to \<^verbatim>\<open>dev_quals\<close> and exactly the others to \<^verbatim>\<open>host_quals\<close>; \<^verbatim>\<open>dev_attrs\<close> is the
  union of the column ordinals of the device conjuncts, and \<^verbatim>\<open>host_attrs\<close> the union
  of those of the host conjuncts and of the target list. The classifier is a total
  function with no error result: a conjunct with an unmapped node is routed to the
  host group.
\<close>

theorem classifier_routing:
  "dev_quals (gpuscan_add_scan_path (pgstrom_codegen_available_expression dt df) quals tlist)
     = filter (\<lambda>ri. list_all (node_has_mapping dt df) (subnodes (clause ri))) quals
   \<and> host_quals (gpuscan_add_scan_path (pgstrom_codegen_available_expression dt df) quals tlist)
     = filter (\<lambda>ri. \<not> list_all (node_has_mapping dt df) (subnodes (clause ri))) quals
   \<and> dev_attrs (gpuscan_add_scan_path (pgstrom_codegen_available_expression dt df) quals tlist)
     = (\<Union>ri\<in>set (filter (\<lambda>ri. list_all (node_has_mapping dt df) (subnodes (clause ri))) quals).
          varattnos_of (clause ri))
   \<and> host_attrs (gpuscan_add_scan_path (pgstrom_codegen_available_expression dt df) quals tlist)
     = (\<Union>ri\<in>set (filter (\<lambda>ri. \<not> list_all (node_has_mapping dt df) (subnodes (clause ri))) quals).
          varattnos_of (clause ri))
       \<union> (\<Union>n\<in>set tlist. varattnos_of n)"
  by (simp add: gpuscan_add_scan_path_def Let_def classify_loop_dev_quals
      classify_loop_host_quals classify_loop_dev_attrs classify_loop_host_attrs
      fold_pull_varattnos_of available_iff_every_node)

text \<open>
  Scenario A of the spec: \<^verbatim>\<open>[colA > 5, colB LIKE '%x%']\<close>, where the type of colA
  (Oid 23) and the operator \<^verbatim>\<open>>\<close> (Oid 521) have device mappings and \<^verbatim>\<open>LIKE\<close>
  (Oid 1209) has none.
\<close>

theorem classifier_routing_scenario_A:
  "dev_quals (gpuscan_add_scan_path
      (pgstrom_codegen_available_expression
         (\<lambda>t. if t = 23 \<or> t = 16 then Some \<lparr>type_ident = ''int4'', type_is_varlena = False\<rparr> else None)
         (\<lambda>f. f = 521))
      [\<lparr>clause = OpExpr 521 16 [Var 23 1, Const 23 5]\<rparr>,
       \<lparr>clause = OpExpr 1209 16 [Var 25 2, Const 25 0]\<rparr>]
      [Var 25 3])
     = [\<lparr>clause = OpExpr 521 16 [Var 23 1, Const 23 5]\<rparr>]
   \<and> host_quals (gpuscan_add_scan_path
      (pgstrom_codegen_available_expression
         (\<lambda>t. if t = 23 \<or> t = 16 then Some \<lparr>type_ident = ''int4'', type_is_varlena = False\<rparr> else None)
         (\<lambda>f. f = 521))
      [\<lparr>clause = OpExpr 521 16 [Var 23 1, Const 23 5]\<rparr>,
       \<lparr>clause = OpExpr 1209 16 [Var 25 2, Const 25 0]\<rparr>]
      [Var 25 3])
     = [\<lparr>clause = OpExpr 1209 16 [Var 25 2, Const 25 0]\<rparr>]
   \<and> dev_attrs (gpuscan_add_scan_path
      (pgstrom_codegen_available_expression
         (\<lambda>t. if t = 23 \<or> t = 16 then Some \<lparr>type_ident = ''int4'', type_is_varlena = False\<rparr> else None)
         (\<lambda>f. f = 521))
      [\<lparr>clause = OpExpr 521 16 [Var 23 1, Const 23 5]\<rparr>,
       \<lparr>clause = OpExpr 1209 16 [Var 25 2, Const 25 0]\<rparr>]
      [Var 25 3])
     = {1}
   \<and> host_attrs (gpuscan_add_scan_path
      (pgstrom_codegen_available_expression
         (\<lambda>t. if t = 23 \<or> t = 16 then Some \<lparr>type_ident = ''int4'', type_is_varlena = False\<rparr> else None)
         (\<lambda>f. f = 521))
      [\<lparr>clause = OpExpr 521 16 [Var 23 1, Const 23 5]\<rparr>,
       \<lparr>clause = OpExpr 1209 16 [Var 25 2, Const 25 0]\<rparr>]
      [Var 25 3])
     = {2, 3}"
  using classifier_routing
    [of "\<lambda>t. if t = 23 \<or> t = 16 then Some \<lparr>type_ident = ''int4'', type_is_varlena = False\<rparr> else None"
        "\<lambda>f. f = 521"
        "[\<lparr>clause = OpExpr 521 16 [Var 23 1, Const 23 5]\<rparr>,
          \<lparr>clause = OpExpr 1209 16 [Var 25 2, Const 25 0]\<rparr>]"
        "[Var 25 3]"]
  by (simp add: varattnos_of_def insert_commute)


section \<open>Properties of the code generator\<close>

lemma printf_u_nat: "k < 2 ^ 32 \<Longrightarrow> printf_u (int k) = dec k"
proof -
  assume "k < 2 ^ 32"
  then have "int k mod 2 ^ 32 = int k" by simp
  then show ?thesis by (simp add: printf_u_def)
qed

lemma printf_d_nat: "printf_d (int k) = dec k"
  by (simp add: printf_d_def)

lemma put_params_layout:
  "put_params dt (int i) str ns = Inr out \<Longrightarrow>
     list_all (\<lambda>n. param_devtype dt n \<noteq> None) ns \<and>
     out = str @ concat (map2 (\<lambda>k n. case param_devtype dt n of None \<Rightarrow> [] | Some d \<Rightarrow> kparam_line (int k) d)
                          [i..<i + length ns] ns)"
proof (induction ns arbitrary: i str)
  case Nil
  then show ?case by simp
next
  case (Cons n ns)
  have s: "int i + 1 = int (Suc i)" by simp
  show ?case
  proof (cases n)
    case (Const t v)
    with Cons.prems obtain d where d: "dt t = Some d"
      and r: "put_params dt (int (Suc i)) (str @ kparam_line (int i) d) ns = Inr out"
      by (auto simp: s split: option.splits)
    from Cons.IH [OF r] show ?thesis
      by (simp add: Const d param_devtype_def upt_conv_Cons del: upt_Suc)
  next
    case (Param t p)
    with Cons.prems obtain d where d: "dt t = Some d"
      and r: "put_params dt (int (Suc i)) (str @ kparam_line (int i) d) ns = Inr out"
      by (auto simp: s split: option.splits)
    from Cons.IH [OF r] show ?thesis
      by (simp add: Param d param_devtype_def upt_conv_Cons del: upt_Suc)
  qed (use Cons.prems in auto)
qed

lemma put_vars_layout:
  "put_vars dt (int i) str ns = Inr out \<Longrightarrow>
     list_all (\<lambda>n. var_devtype dt n \<noteq> None) ns \<and>
     out = str @ concat (map2 (\<lambda>k n. case var_devtype dt n of None \<Rightarrow> [] | Some d \<Rightarrow> kvar_line (int k) d)
                          [i..<i + length ns] ns)"
proof (induction ns arbitrary: i str)
  case Nil
  then show ?case by simp
next
  case (Cons n ns)
  have s: "int i + 1 = int (Suc i)" by simp
  show ?case
  proof (cases n)
    case (Var t a)
    with Cons.prems obtain d where d: "dt t = Some d"
      and r: "put_vars dt (int (Suc i)) (str @ kvar_line (int i) d) ns = Inr out"
      by (auto simp: s split: option.splits)
    from Cons.IH [OF r] show ?thesis
      by (simp add: Var d var_devtype_def upt_conv_Cons del: upt_Suc)
  qed (use Cons.prems in auto)
qed

lemma put_attnos_layout:
  "put_attnos h str ns = Inr out \<Longrightarrow>
     out = str @ (if h \<or> ns = [] then [] else '', '') @ comma_sep (map (\<lambda>n. printf_u (varattno n)) ns)"
proof (induction ns arbitrary: h str)
  case Nil
  then show ?case by simp
next
  case (Cons n ns)
  show ?case
  proof (cases n)
    case (Var t a)
    with Cons.prems have r: "put_attnos False (str @ (if h then [] else '', '') @ printf_u a) ns = Inr out"
      by simp
    from Cons.IH [OF r] show ?thesis
      by (cases ns) (simp_all add: Var)
  qed (use Cons.prems in auto)
qed


lemma map2_index_cong:
  assumes "\<And>k n. k < length ns \<Longrightarrow> f k n = g k n"
  shows "map2 f [0..<length ns] ns = map2 g [0..<length ns] ns"
proof (rule map_cong [OF refl])
  fix p assume "p \<in> set (zip [0..<length ns] ns)"
  then have "fst p \<in> set [0..<length ns]"
    using set_zip_leftD [of "fst p" "snd p" "[0..<length ns]" ns] by simp
  then have "fst p < length ns" by simp
  then show "(case p of (k, n) \<Rightarrow> f k n) = (case p of (k, n) \<Rightarrow> g k n)"
    by (cases p) (simp add: assms)
qed

lemma kparam_line_macro:
  "k < 2 ^ 32 \<Longrightarrow>
   (case param_devtype dt n of None \<Rightarrow> [] | Some d \<Rightarrow> kparam_line (int k) d) = kparam_macro dt k n"
  by (simp add: kparam_macro_def kparam_line_def printf_u_nat printf_d_nat split: option.splits)

lemma kvar_line_macro:
  "k < 2 ^ 32 \<Longrightarrow>
   (case var_devtype dt n of None \<Rightarrow> [] | Some d \<Rightarrow> kvar_line (int k) d) = kvar_macro dt k n"
  by (simp add: kvar_macro_def kvar_line_def printf_u_nat split: option.splits)

lemma below_int_range: "k < n \<Longrightarrow> n \<le> 2 ^ 31 \<Longrightarrow> k < (2::nat) ^ 32"
proof -
  assume "k < n" "n \<le> 2 ^ 31"
  then have "k < (2::nat) ^ 31" by simp
  also have "(2::nat) ^ 31 < 2 ^ 32" by simp
  finally show ?thesis .
qed

lemma printf_u_attno: "0 \<le> a \<Longrightarrow> a < 2 ^ 15 \<Longrightarrow> printf_u a = dec (nat a)"
proof -
  assume a: "0 \<le> a" "a < 2 ^ 15"
  have "(2::int) ^ 15 < 2 ^ 32" by simp
  with a have "a < 2 ^ 32" by linarith
  with a have "a mod 2 ^ 32 = a" by simp
  then show ?thesis by (simp add: printf_u_def)
qed

lemma qual_cs_one_kernel: "occurrences ''__kernel'' (gpuscan_qual_cs_text []) = 1"
  by code_simp

lemma qual_rs_prep_one_kernel: "occurrences ''__kernel'' gpuscan_qual_rs_prep_text = 1"
  by code_simp

lemma qual_rs_one_kernel: "occurrences ''__kernel'' gpuscan_qual_rs_text = 1"
  by code_simp

lemma codegen_quals_layout:
  assumes ne: "quals \<noteq> []"
    and gen: "gpuscan_codegen_quals cg dt quals c0 = Inr (r, ctx)"
    and np: "length (used_params ctx) \<le> 2 ^ 31"
    and nv: "length (used_vars ctx) \<le> 2 ^ 31"
    and att: "list_all (\<lambda>n. 0 \<le> varattno n \<and> varattno n < 2 ^ 15) (used_vars ctx)"
  shows "\<exists>code. cg quals zero_context = Inr (Some code, ctx)
           \<and> r = Some (kernel_source_layout dt code ctx)
           \<and> list_all (\<lambda>n. param_devtype dt n \<noteq> None) (used_params ctx)
           \<and> list_all (\<lambda>n. var_devtype dt n \<noteq> None) (used_vars ctx)
"
proof -
  from ne obtain q qs where quals: "quals = q # qs" by (cases quals) auto
  from gen obtain code s1 s2 s3 where
    cg: "cg quals zero_context = Inr (Some code, ctx)"
    and p1: "put_params dt (int 0) [] (used_params ctx) = Inr s1"
    and p2: "put_vars dt (int 0) s1 (used_vars ctx) = Inr s2"
    and p3: "put_attnos True (s2 @ ''\<newline>'' @ ''static __constant cl_ushort pg_used_vars[]={'')
               (used_vars ctx) = Inr s3"
    and r: "r = Some (s3 @ ''};\<newline>\<newline>'' @ gpuscan_qual_cs_text code @
                     gpuscan_qual_rs_prep_text @ gpuscan_qual_rs_text)"
    unfolding gpuscan_codegen_quals_def quals
    by (auto simp: Let_def split: sum.splits option.splits prod.splits)
  from put_params_layout [OF p1]
  have ap: "list_all (\<lambda>n. param_devtype dt n \<noteq> None) (used_params ctx)"
    and s1: "s1 = concat (map2 (\<lambda>k n. case param_devtype dt n of None \<Rightarrow> []
                | Some d \<Rightarrow> kparam_line (int k) d) [0..<length (used_params ctx)] (used_params ctx))"
    by simp_all
  have s1': "s1 = concat (map2 (kparam_macro dt) [0..<length (used_params ctx)] (used_params ctx))"
    unfolding s1
    by (rule arg_cong [where f = concat], rule map2_index_cong, rule kparam_line_macro)
       (rule below_int_range [OF _ np])
  from put_vars_layout [OF p2]
  have av: "list_all (\<lambda>n. var_devtype dt n \<noteq> None) (used_vars ctx)"
    and s2: "s2 = s1 @ concat (map2 (\<lambda>k n. case var_devtype dt n of None \<Rightarrow> []
                | Some d \<Rightarrow> kvar_line (int k) d) [0..<length (used_vars ctx)] (used_vars ctx))"
    by simp_all
  have "concat (map2 (\<lambda>k n. case var_devtype dt n of None \<Rightarrow> []
                | Some d \<Rightarrow> kvar_line (int k) d) [0..<length (used_vars ctx)] (used_vars ctx))
        = concat (map2 (kvar_macro dt) [0..<length (used_vars ctx)] (used_vars ctx))"
    by (rule arg_cong [where f = concat], rule map2_index_cong, rule kvar_line_macro)
       (rule below_int_range [OF _ nv])
  with s2 have s2': "s2 = s1 @ concat (map2 (kvar_macro dt) [0..<length (used_vars ctx)] (used_vars ctx))"
    by simp
  have m: "map (\<lambda>n. printf_u (varattno n)) (used_vars ctx)
           = map dec (map (\<lambda>n. nat (varattno n)) (used_vars ctx))"
    using att by (induction "used_vars ctx") (auto simp: printf_u_attno list_all_iff)
  from put_attnos_layout [OF p3]
  have s3: "s3 = s2 @ ''\<newline>static __constant cl_ushort pg_used_vars[]={'' @
              comma_sep (map dec (map (\<lambda>n. nat (varattno n)) (used_vars ctx)))"
    by (simp add: m)
  have "r = Some (kernel_source_layout dt code ctx)"
    unfolding r s3 s2' s1' kernel_source_layout_def used_vars_array_def by simp
  then show ?thesis
    using cg ap av by blast
qed

text \<open>
  Claim C3. For a non-empty qualifier list on which the generator returns, the source
  it returns is, in this order: one line \<^verbatim>\<open>#define KPARAM_<i>\<close> for the i-th entry of
  \<^verbatim>\<open>used_params\<close> and one line \<^verbatim>\<open>#define KVAR_<i>\<close> for the i-th entry of
  \<^verbatim>\<open>used_vars\<close> (indices from 0, every entry with a line), one array literal
  \<^verbatim>\<open>pg_used_vars\<close> with the column ordinals of the used variables in index order,
  and the three kernel functions \<^verbatim>\<open>gpuscan_qual_cs\<close>, \<^verbatim>\<open>gpuscan_qual_rs_prep\<close>,
  \<^verbatim>\<open>gpuscan_qual_rs\<close>, each text declaring one kernel. The lists are shorter than
  the range of the C \<^verbatim>\<open>int\<close> that counts them, and the column ordinals are
  non-negative \<^verbatim>\<open>AttrNumber\<close>s.
\<close>

theorem codegen_source_layout:
  assumes ne: "quals \<noteq> []"
    and gen: "gpuscan_codegen_quals cg dt quals c0 = Inr (r, ctx)"
    and np: "length (used_params ctx) \<le> 2 ^ 31"
    and nv: "length (used_vars ctx) \<le> 2 ^ 31"
    and att: "list_all (\<lambda>n. 0 \<le> varattno n \<and> varattno n < 2 ^ 15) (used_vars ctx)"
  shows "\<exists>code. cg quals zero_context = Inr (Some code, ctx)
           \<and> r = Some (kernel_source_layout dt code ctx)
           \<and> list_all (\<lambda>n. param_devtype dt n \<noteq> None) (used_params ctx)
           \<and> list_all (\<lambda>n. var_devtype dt n \<noteq> None) (used_vars ctx)
           \<and> prefix ''__kernel void\<newline>gpuscan_qual_cs('' (gpuscan_qual_cs_text code)
           \<and> prefix ''__kernel void\<newline>gpuscan_qual_rs_prep('' gpuscan_qual_rs_prep_text
           \<and> prefix ''__kernel void\<newline>gpuscan_qual_rs('' gpuscan_qual_rs_text
           \<and> occurrences ''__kernel'' (gpuscan_qual_cs_text []) = 1
           \<and> occurrences ''__kernel'' gpuscan_qual_rs_prep_text = 1
           \<and> occurrences ''__kernel'' gpuscan_qual_rs_text = 1"
proof -
  from codegen_quals_layout [OF ne gen np nv att] obtain code where
    "cg quals zero_context = Inr (Some code, ctx)"
    "r = Some (kernel_source_layout dt code ctx)"
    "list_all (\<lambda>n. param_devtype dt n \<noteq> None) (used_params ctx)"
    "list_all (\<lambda>n. var_devtype dt n \<noteq> None) (used_vars ctx)"
    by blast
  moreover have "prefix ''__kernel void\<newline>gpuscan_qual_cs('' (gpuscan_qual_cs_text code)"
    by (simp add: gpuscan_qual_cs_text_def gpuscan_qual_cs_head_def)
  moreover have "prefix ''__kernel void\<newline>gpuscan_qual_rs_prep('' gpuscan_qual_rs_prep_text"
    by (simp add: gpuscan_qual_rs_prep_text_def)
  moreover have "prefix ''__kernel void\<newline>gpuscan_qual_rs('' gpuscan_qual_rs_text"
    by (simp add: gpuscan_qual_rs_text_def)
  ultimately show ?thesis
    using qual_cs_one_kernel qual_rs_prep_one_kernel qual_rs_one_kernel by blast
qed

lemma dec_digits: "dec 0 = ''0''" "dec (Suc 0) = ''1''" "dec 1 = ''1''" "dec 3 = ''3''"
  by (simp_all add: dec.simps [of 0] dec.simps [of 1] dec.simps [of "Suc 0"] dec.simps [of 3] digit_char_def)

lemma example_generates:
  "gpuscan_codegen_quals example_expression example_catalog example_quals c0
     = Inr (Some example_source, example_context)"
  by (simp add: gpuscan_codegen_quals_def example_expression_def example_catalog_def
      example_quals_def example_source_def example_context_def zero_context_def
      example_macros_def example_code_def
      kparam_line_def kvar_line_def printf_u_def printf_d_def dec_digits)


theorem codegen_source_layout_example:
  "example_quals \<noteq> []
   \<and> gpuscan_codegen_quals example_expression example_catalog example_quals zero_context
       = Inr (Some example_source, example_context)
   \<and> length (used_params example_context) \<le> 2 ^ 31
   \<and> length (used_vars example_context) \<le> 2 ^ 31
   \<and> list_all (\<lambda>n. 0 \<le> varattno n \<and> varattno n < 2 ^ 15) (used_vars example_context)
   \<and> (\<exists>code. example_expression example_quals zero_context = Inr (Some code, example_context)
           \<and> Some example_source = Some (kernel_source_layout example_catalog code example_context)
           \<and> list_all (\<lambda>n. param_devtype example_catalog n \<noteq> None) (used_params example_context)
           \<and> list_all (\<lambda>n. var_devtype example_catalog n \<noteq> None) (used_vars example_context)
           \<and> prefix ''__kernel void\<newline>gpuscan_qual_cs('' (gpuscan_qual_cs_text code)
           \<and> prefix ''__kernel void\<newline>gpuscan_qual_rs_prep('' gpuscan_qual_rs_prep_text
           \<and> prefix ''__kernel void\<newline>gpuscan_qual_rs('' gpuscan_qual_rs_text
           \<and> occurrences ''__kernel'' (gpuscan_qual_cs_text []) = 1
           \<and> occurrences ''__kernel'' gpuscan_qual_rs_prep_text = 1
           \<and> occurrences ''__kernel'' gpuscan_qual_rs_text = 1)"
proof -
  have h1: "example_quals \<noteq> []"
    by (simp add: example_quals_def)
  have h2: "gpuscan_codegen_quals example_expression example_catalog example_quals zero_context
       = Inr (Some example_source, example_context)"
    by (rule example_generates)
  have h3: "length (used_params example_context) \<le> 2 ^ 31"
    by (simp add: example_context_def)
  have h4: "length (used_vars example_context) \<le> 2 ^ 31"
    by (simp add: example_context_def)
  have h5: "list_all (\<lambda>n. 0 \<le> varattno n \<and> varattno n < 2 ^ 15) (used_vars example_context)"
    by (simp add: example_context_def)
  from codegen_source_layout [OF h1 h2 h3 h4 h5] h1 h2 h3 h4 h5 show ?thesis
    by simp
qed







section \<open>Symbols of the generated source\<close>

lemma runs_append:
  "runs P w (a @ b) = closed_runs P w a @ runs P (pending_run P w a) b"
  by (induction a arbitrary: w) simp_all

lemma runs_sep: "\<not> P c \<Longrightarrow> runs P w (a @ c # b) = runs P w a @ runs P [] b"
  by (induction a arbitrary: w) simp_all

lemma runs_all: "list_all P a \<Longrightarrow> runs P w (a @ b) = runs P (w @ a) b"
  by (induction a arbitrary: w) simp_all

lemma idents_sep: "\<not> cl_ident_char c \<Longrightarrow> idents (a @ c # b) = idents a @ idents b"
  by (simp add: idents_def runs_sep)

lemma idents_word: "list_all cl_ident_char w \<Longrightarrow> w \<noteq> [] \<Longrightarrow> idents w = [w]"
  using runs_all [of cl_ident_char w "[]" "[]"] by (simp add: idents_def)

lemma symbols_sep: "\<not> cl_ident_char c \<Longrightarrow> symbols (a @ c # b) = symbols a @ symbols b"
  by (simp add: symbols_def idents_sep)

lemma symbols_Nil: "symbols [] = []"
  by (simp add: symbols_def idents_def)

lemma symbols_skip: "\<not> cl_ident_char c \<Longrightarrow> symbols (c # b) = symbols b"
  using symbols_sep [of c "[]" b] by (simp add: symbols_Nil)

lemma symbols_word:
  "list_all cl_ident_char w \<Longrightarrow> w \<noteq> [] \<Longrightarrow>
   symbols w = (if cl_digit (hd w) then [] else [w])"
  by (simp add: symbols_def idents_word)

lemma symbols_ends:
  assumes "a \<noteq> []" and "\<not> cl_ident_char (last a)"
  shows "symbols (a @ b) = symbols a @ symbols b"
proof -
  have a: "a = butlast a @ [last a]" using assms(1) by simp
  have "symbols (a @ b) = symbols (butlast a @ last a # b)"
    by (subst a) simp
  also have "\<dots> = symbols (butlast a) @ symbols b"
    by (rule symbols_sep [OF assms(2)])
  also have "symbols (butlast a) = symbols (butlast a @ last a # [])"
    by (simp add: symbols_sep [OF assms(2)] symbols_Nil)
  also have "butlast a @ last a # [] = a" using a by simp
  finally show ?thesis .
qed

lemma digit_is_ident: "cl_digit c \<Longrightarrow> cl_ident_char c"
  by (simp add: cl_ident_char_def)

lemma digit_char_digit: "d < 10 \<Longrightarrow> cl_digit (digit_char d)"
proof -
  assume "d < 10"
  then have "d < length ''0123456789''" by simp
  then have "''0123456789'' ! d \<in> set ''0123456789''" by (rule nth_mem)
  then show ?thesis by (simp only: cl_digit_def digit_char_def)
qed

lemma dec_all_digits: "list_all cl_digit (dec n) \<and> dec n \<noteq> []"
proof (induction n rule: dec.induct)
  case (1 n)
  show ?case
  proof (cases "n < 10")
    case True
    then show ?thesis by (simp add: dec.simps [of n] digit_char_digit)
  next
    case False
    with 1 show ?thesis by (simp add: dec.simps [of n] digit_char_digit)
  qed
qed


lemma runs_all_end: "list_all P a \<Longrightarrow> runs P w a = (if w @ a = [] then [] else [w @ a])"
  using runs_all [of P a w "[]"] by simp

lemma dec_ident: "list_all cl_ident_char (dec n)"
  using dec_all_digits [of n] by (auto simp: list_all_iff digit_is_ident)

lemma dec_nonempty: "dec n \<noteq> []"
  using dec_all_digits [of n] by simp

lemma dec_hd_digit: "cl_digit (hd (dec n))"
  using dec_all_digits [of n] by (cases "dec n") simp_all

lemma ident_chars:
  "cl_ident_char (CHR ''a'')" "cl_ident_char (CHR ''b'')" "cl_ident_char (CHR ''c'')"
    "cl_ident_char (CHR ''d'')" "cl_ident_char (CHR ''e'')" "cl_ident_char (CHR ''f'')"
    "cl_ident_char (CHR ''g'')" "cl_ident_char (CHR ''h'')" "cl_ident_char (CHR ''i'')"
    "cl_ident_char (CHR ''j'')" "cl_ident_char (CHR ''k'')" "cl_ident_char (CHR ''l'')"
    "cl_ident_char (CHR ''m'')" "cl_ident_char (CHR ''n'')" "cl_ident_char (CHR ''o'')"
    "cl_ident_char (CHR ''p'')" "cl_ident_char (CHR ''q'')" "cl_ident_char (CHR ''r'')"
    "cl_ident_char (CHR ''s'')" "cl_ident_char (CHR ''t'')" "cl_ident_char (CHR ''u'')"
    "cl_ident_char (CHR ''v'')" "cl_ident_char (CHR ''w'')" "cl_ident_char (CHR ''x'')"
    "cl_ident_char (CHR ''y'')" "cl_ident_char (CHR ''z'')" "cl_ident_char (CHR ''A'')"
    "cl_ident_char (CHR ''B'')" "cl_ident_char (CHR ''C'')" "cl_ident_char (CHR ''D'')"
    "cl_ident_char (CHR ''E'')" "cl_ident_char (CHR ''F'')" "cl_ident_char (CHR ''G'')"
    "cl_ident_char (CHR ''H'')" "cl_ident_char (CHR ''I'')" "cl_ident_char (CHR ''J'')"
    "cl_ident_char (CHR ''K'')" "cl_ident_char (CHR ''L'')" "cl_ident_char (CHR ''M'')"
    "cl_ident_char (CHR ''N'')" "cl_ident_char (CHR ''O'')" "cl_ident_char (CHR ''P'')"
    "cl_ident_char (CHR ''Q'')" "cl_ident_char (CHR ''R'')" "cl_ident_char (CHR ''S'')"
    "cl_ident_char (CHR ''T'')" "cl_ident_char (CHR ''U'')" "cl_ident_char (CHR ''V'')"
    "cl_ident_char (CHR ''W'')" "cl_ident_char (CHR ''X'')" "cl_ident_char (CHR ''Y'')"
    "cl_ident_char (CHR ''Z'')" "cl_ident_char (CHR ''_'')" "cl_ident_char (CHR ''0'')"
    "cl_ident_char (CHR ''1'')" "cl_ident_char (CHR ''2'')" "cl_ident_char (CHR ''3'')"
    "cl_ident_char (CHR ''4'')" "cl_ident_char (CHR ''5'')" "cl_ident_char (CHR ''6'')"
    "cl_ident_char (CHR ''7'')" "cl_ident_char (CHR ''8'')" "cl_ident_char (CHR ''9'')"
  by code_simp+

lemma separator_chars:
  "\<not> cl_ident_char (CHR '' '')" "\<not> cl_ident_char (CHR 0x09)" "\<not> cl_ident_char
    (CHR ''\<newline>'')" "\<not> cl_ident_char (CHR ''#'')" "\<not> cl_ident_char (CHR
    ''('')" "\<not> cl_ident_char (CHR '')'')" "\<not> cl_ident_char (CHR '','')" "\<not>
    cl_ident_char (CHR '';'')" "\<not> cl_ident_char (CHR ''{'')" "\<not> cl_ident_char (CHR
    ''}'')" "\<not> cl_ident_char (CHR ''['')" "\<not> cl_ident_char (CHR '']'')" "\<not>
    cl_ident_char (CHR ''='')" "\<not> cl_ident_char (CHR ''<'')" "\<not> cl_ident_char (CHR
    ''>'')" "\<not> cl_ident_char (CHR ''-'')" "\<not> cl_ident_char (CHR ''.'')" "\<not>
    cl_ident_char (CHR ''!'')" "\<not> cl_ident_char (CHR ''&'')" "\<not> cl_ident_char (CHR
    ''?'')" "\<not> cl_ident_char (CHR '':'')" "\<not> cl_ident_char (CHR ''*'')" "\<not>
    cl_ident_char (CHR ''|'')"
  by code_simp+

lemma letter_chars:
  "\<not> cl_digit (CHR ''a'')" "\<not> cl_digit (CHR ''b'')" "\<not>
    cl_digit (CHR ''c'')" "\<not> cl_digit (CHR ''d'')" "\<not> cl_digit (CHR
    ''e'')" "\<not> cl_digit (CHR ''f'')" "\<not> cl_digit (CHR ''g'')" "\<not>
    cl_digit (CHR ''h'')" "\<not> cl_digit (CHR ''i'')" "\<not> cl_digit (CHR
    ''j'')" "\<not> cl_digit (CHR ''k'')" "\<not> cl_digit (CHR ''l'')" "\<not>
    cl_digit (CHR ''m'')" "\<not> cl_digit (CHR ''n'')" "\<not> cl_digit (CHR
    ''o'')" "\<not> cl_digit (CHR ''p'')" "\<not> cl_digit (CHR ''q'')" "\<not>
    cl_digit (CHR ''r'')" "\<not> cl_digit (CHR ''s'')" "\<not> cl_digit (CHR
    ''t'')" "\<not> cl_digit (CHR ''u'')" "\<not> cl_digit (CHR ''v'')" "\<not>
    cl_digit (CHR ''w'')" "\<not> cl_digit (CHR ''x'')" "\<not> cl_digit (CHR
    ''y'')" "\<not> cl_digit (CHR ''z'')" "\<not> cl_digit (CHR ''A'')" "\<not>
    cl_digit (CHR ''B'')" "\<not> cl_digit (CHR ''C'')" "\<not> cl_digit (CHR
    ''D'')" "\<not> cl_digit (CHR ''E'')" "\<not> cl_digit (CHR ''F'')" "\<not>
    cl_digit (CHR ''G'')" "\<not> cl_digit (CHR ''H'')" "\<not> cl_digit (CHR
    ''I'')" "\<not> cl_digit (CHR ''J'')" "\<not> cl_digit (CHR ''K'')" "\<not>
    cl_digit (CHR ''L'')" "\<not> cl_digit (CHR ''M'')" "\<not> cl_digit (CHR
    ''N'')" "\<not> cl_digit (CHR ''O'')" "\<not> cl_digit (CHR ''P'')" "\<not>
    cl_digit (CHR ''Q'')" "\<not> cl_digit (CHR ''R'')" "\<not> cl_digit (CHR
    ''S'')" "\<not> cl_digit (CHR ''T'')" "\<not> cl_digit (CHR ''U'')" "\<not>
    cl_digit (CHR ''V'')" "\<not> cl_digit (CHR ''W'')" "\<not> cl_digit (CHR
    ''X'')" "\<not> cl_digit (CHR ''Y'')" "\<not> cl_digit (CHR ''Z'')" "\<not>
    cl_digit (CHR ''_'')"
  by code_simp+

lemma digit_chars:
  "cl_digit (CHR ''0'')" "cl_digit (CHR ''1'')" "cl_digit (CHR ''2'')"
    "cl_digit (CHR ''3'')" "cl_digit (CHR ''4'')" "cl_digit (CHR ''5'')"
    "cl_digit (CHR ''6'')" "cl_digit (CHR ''7'')" "cl_digit (CHR ''8'')"
    "cl_digit (CHR ''9'')"
  by code_simp+


lemmas tok_eval = symbols_def idents_def ident_chars separator_chars letter_chars digit_chars
  runs_all runs_all_end dec_ident dec_nonempty dec_hd_digit

lemma symbols_define_kparam: "symbols (''#define KPARAM_'' @ dec i) = [''define'', ''KPARAM_'' @ dec i]"
  by (simp add: tok_eval)


lemma symbols_define_kvar: "symbols (''#define KVAR_'' @ dec i) = [''define'', ''KVAR_'' @ dec i]"
  by (simp add: tok_eval)

lemma symbols_param_args:
  "symbols (''kparams,'' @ dec i @ '')\<newline>'' @ rest) = ''kparams'' # symbols rest"
proof -
  have "symbols (''kparams,'' @ dec i @ '')\<newline>'' @ rest)
        = symbols ((''kparams,'' @ dec i) @ CHR '')'' # (CHR ''\<newline>'' # rest))"
    by simp
  also have "\<dots> = symbols (''kparams,'' @ dec i) @ symbols (CHR ''\<newline>'' # rest)"
    by (rule symbols_sep) (rule separator_chars)
  also have "symbols (''kparams,'' @ dec i) = [''kparams'']"
    by (simp add: tok_eval)
  also have "symbols (CHR ''\<newline>'' # rest) = symbols rest"
    by (rule symbols_skip) (rule separator_chars)
  finally show ?thesis by simp
qed

lemma symbols_kparam_macro:
  assumes "param_devtype dt n = Some d"
  shows "symbols (kparam_macro dt i n @ rest) =
           [''define'', ''KPARAM_'' @ dec i] @ symbols (''pg_'' @ type_ident d @ ''_param'') @
           [''kparams''] @ symbols rest"
proof -
  let ?acc = "''pg_'' @ type_ident d @ ''_param''"
  let ?tl = "''kparams,'' @ dec i @ '')\<newline>'' @ rest"
  have shape: "kparam_macro dt i n @ rest
        = (''#define KPARAM_'' @ dec i) @ CHR 0x09 # (?acc @ CHR ''('' # ?tl)"
    by (simp add: kparam_macro_def assms)
  have "symbols (kparam_macro dt i n @ rest)
        = symbols ((''#define KPARAM_'' @ dec i) @ CHR 0x09 # (?acc @ CHR ''('' # ?tl))"
    by (simp only: shape)
  also have "\<dots> = symbols (''#define KPARAM_'' @ dec i) @ symbols (?acc @ CHR ''('' # ?tl)"
    by (rule symbols_sep) (rule separator_chars)
  also have "symbols (?acc @ CHR ''('' # ?tl) = symbols ?acc @ symbols ?tl"
    by (rule symbols_sep) (rule separator_chars)
  finally have e: "symbols (kparam_macro dt i n @ rest)
      = symbols (''#define KPARAM_'' @ dec i) @ symbols ?acc @ symbols ?tl" .
  show ?thesis
    unfolding e symbols_define_kparam symbols_param_args by simp
qed

lemma symbols_var_args:
  "symbols (''kcs,'' @ dec i @ '',get_global_id(0))\<newline>'' @ rest)
     = ''kcs'' # ''get_global_id'' # symbols rest"
proof -
  have "symbols (''kcs,'' @ dec i @ '',get_global_id(0))\<newline>'' @ rest)
        = symbols ((''kcs,'' @ dec i @ '',get_global_id(0)'') @ CHR '')'' # (CHR ''\<newline>'' # rest))"
    by simp
  also have "\<dots> = symbols (''kcs,'' @ dec i @ '',get_global_id(0)'') @ symbols (CHR ''\<newline>'' # rest)"
    by (rule symbols_sep) (rule separator_chars)
  also have "symbols (CHR ''\<newline>'' # rest) = symbols rest"
    by (rule symbols_skip) (rule separator_chars)
  also have "symbols (''kcs,'' @ dec i @ '',get_global_id(0)'')
             = symbols ((''kcs,'' @ dec i) @ CHR '','' # ''get_global_id(0)'')"
    by simp
  also have "\<dots> = symbols (''kcs,'' @ dec i) @ symbols ''get_global_id(0)''"
    by (rule symbols_sep) (rule separator_chars)
  also have "symbols (''kcs,'' @ dec i) = [''kcs'']"
    by (simp add: tok_eval)
  also have "symbols ''get_global_id(0)'' = [''get_global_id'']"
    by (simp add: tok_eval)
  finally show ?thesis by simp
qed

lemma symbols_varlena_args:
  "symbols (''kcs,toast,'' @ dec i @ '',get_global_id(0))\<newline>'' @ rest)
     = ''kcs'' # ''toast'' # ''get_global_id'' # symbols rest"
proof -
  have "symbols (''kcs,toast,'' @ dec i @ '',get_global_id(0))\<newline>'' @ rest)
        = symbols (''kcs'' @ CHR '','' # (''toast,'' @ dec i @ '',get_global_id(0))\<newline>'' @ rest))"
    by simp
  also have "\<dots> = symbols ''kcs'' @ symbols (''toast,'' @ dec i @ '',get_global_id(0))\<newline>'' @ rest)"
    by (rule symbols_sep) (rule separator_chars)
  also have "symbols ''kcs'' = [''kcs'']"
    by (simp add: tok_eval)
  also have "symbols (''toast,'' @ dec i @ '',get_global_id(0))\<newline>'' @ rest)
        = symbols ((''toast,'' @ dec i @ '',get_global_id(0)'') @ CHR '')'' # (CHR ''\<newline>'' # rest))"
    by simp
  also have "\<dots> = symbols (''toast,'' @ dec i @ '',get_global_id(0)'') @ symbols (CHR ''\<newline>'' # rest)"
    by (rule symbols_sep) (rule separator_chars)
  also have "symbols (CHR ''\<newline>'' # rest) = symbols rest"
    by (rule symbols_skip) (rule separator_chars)
  also have "symbols (''toast,'' @ dec i @ '',get_global_id(0)'')
             = symbols ((''toast,'' @ dec i) @ CHR '','' # ''get_global_id(0)'')"
    by simp
  also have "\<dots> = symbols (''toast,'' @ dec i) @ symbols ''get_global_id(0)''"
    by (rule symbols_sep) (rule separator_chars)
  also have "symbols (''toast,'' @ dec i) = [''toast'']"
    by (simp add: tok_eval)
  also have "symbols ''get_global_id(0)'' = [''get_global_id'']"
    by (simp add: tok_eval)
  finally show ?thesis by simp
qed

lemma symbols_kvar_macro:
  assumes "var_devtype dt n = Some d"
  shows "symbols (kvar_macro dt i n @ rest) =
           [''define'', ''KVAR_'' @ dec i] @ symbols (''pg_'' @ type_ident d @ ''_vref'') @
           (if type_is_varlena d then [''kcs'', ''toast'', ''get_global_id'']
            else [''kcs'', ''get_global_id'']) @ symbols rest"
proof -
  let ?acc = "''pg_'' @ type_ident d @ ''_vref''"
  let ?tl = "(if type_is_varlena d then ''kcs,toast,'' else ''kcs,'') @ dec i @
             '',get_global_id(0))\<newline>'' @ rest"
  have shape: "kvar_macro dt i n @ rest
        = (''#define KVAR_'' @ dec i) @ CHR 0x09 # (?acc @ CHR ''('' # ?tl)"
    by (simp add: kvar_macro_def assms)
  have "symbols (kvar_macro dt i n @ rest)
        = symbols ((''#define KVAR_'' @ dec i) @ CHR 0x09 # (?acc @ CHR ''('' # ?tl))"
    by (simp only: shape)
  also have "\<dots> = symbols (''#define KVAR_'' @ dec i) @ symbols (?acc @ CHR ''('' # ?tl)"
    by (rule symbols_sep) (rule separator_chars)
  also have "symbols (?acc @ CHR ''('' # ?tl) = symbols ?acc @ symbols ?tl"
    by (rule symbols_sep) (rule separator_chars)
  finally have e: "symbols (kvar_macro dt i n @ rest)
      = symbols (''#define KVAR_'' @ dec i) @ symbols ?acc @ symbols ?tl" .
  show ?thesis
  proof (cases "type_is_varlena d")
    case True
    then show ?thesis
      unfolding e symbols_define_kvar by (simp only: if_True symbols_varlena_args) simp
  next
    case False
    then show ?thesis
      unfolding e symbols_define_kvar by (simp only: if_False symbols_var_args) simp
  qed
qed


lemma symbols_starts:
  assumes "b \<noteq> []" and "\<not> cl_ident_char (hd b)"
  shows "symbols (a @ b) = symbols a @ symbols b"
proof -
  have b: "b = hd b # tl b" using assms(1) by simp
  have "symbols (a @ b) = symbols (a @ hd b # tl b)"
    by (subst b) simp
  also have "\<dots> = symbols a @ symbols (tl b)"
    by (rule symbols_sep [OF assms(2)])
  also have "symbols (tl b) = symbols (hd b # tl b)"
    by (simp add: symbols_skip [OF assms(2)])
  also have "hd b # tl b = b" using b by simp
  finally show ?thesis .
qed

lemma symbols_number_list:
  "symbols (comma_sep (map dec xs) @ CHR ''}'' # rest) = symbols rest"
proof (induction xs rule: induct_list012)
  case 1
  show ?case by (simp add: symbols_skip separator_chars)
next
  case (2 x)
  have "symbols (dec x @ CHR ''}'' # rest) = symbols (dec x) @ symbols rest"
    by (rule symbols_sep) (rule separator_chars)
  also have "symbols (dec x) = []"
    by (simp add: symbols_word dec_ident dec_nonempty dec_hd_digit)
  finally show ?case by simp
next
  case (3 x y ys)
  let ?r = "comma_sep (map dec (y # ys)) @ CHR ''}'' # rest"
  have "symbols (comma_sep (map dec (x # y # ys)) @ CHR ''}'' # rest)
        = symbols (dec x @ CHR '','' # (CHR '' '' # ?r))"
    by simp
  also have "\<dots> = symbols (dec x) @ symbols (CHR '' '' # ?r)"
    by (rule symbols_sep) (rule separator_chars)
  also have "symbols (dec x) = []"
    by (simp add: symbols_word dec_ident dec_nonempty dec_hd_digit)
  also have "symbols (CHR '' '' # ?r) = symbols ?r"
    by (rule symbols_skip) (rule separator_chars)
  finally show ?case using 3 by simp
qed

lemma symbols_used_vars_array:
  "symbols (used_vars_array attnos @ rest)
     = [''static'', ''__constant'', ''cl_ushort'', ''pg_used_vars''] @ symbols rest"
proof -
  let ?h = "''\<newline>static __constant cl_ushort pg_used_vars[]=''"
  have "symbols (used_vars_array attnos @ rest)
        = symbols (?h @ CHR ''{'' # (comma_sep (map dec attnos) @ CHR ''}'' # ('';\<newline>\<newline>'' @ rest)))"
    by (simp add: used_vars_array_def)
  also have "\<dots> = symbols ?h @ symbols (comma_sep (map dec attnos) @ CHR ''}'' # ('';\<newline>\<newline>'' @ rest))"
    by (rule symbols_sep) (rule separator_chars)
  also have "symbols ?h = [''static'', ''__constant'', ''cl_ushort'', ''pg_used_vars'']"
    by code_simp
  also have "symbols (comma_sep (map dec attnos) @ CHR ''}'' # ('';\<newline>\<newline>'' @ rest))
        = symbols ('';\<newline>\<newline>'' @ rest)"
    by (rule symbols_number_list)
  also have "symbols ('';\<newline>\<newline>'' @ rest) = symbols rest"
    by (simp add: symbols_skip separator_chars)
  finally show ?thesis .
qed

lemma symbols_cs_head:
  "symbols gpuscan_qual_cs_head =
     [''__kernel'', ''void'', ''gpuscan_qual_cs'', ''__global'',
      ''kern_gpuscan'', ''gpuscan'', ''__global'', ''kern_parambuf'',
      ''kparams'', ''__global'', ''kern_column_store'', ''kcs'', ''__global'',
      ''kern_toastbuf'', ''toast'', ''__local'', ''void'', ''local_workmem'',
      ''pg_bool_t'', ''rc'', ''cl_int'', ''errcode'', ''gpuscan_local_init'',
      ''local_workmem'', ''if'', ''get_global_id'', ''kcs'', ''nrows'', ''rc'']"
  by code_simp

lemma symbols_cs_tail:
  "symbols gpuscan_qual_cs_tail =
     [''else'', ''rc'', ''isnull'', ''CL_TRUE'', ''kern_set_error'', ''rc'',
      ''isnull'', ''rc'', ''value'', ''StromError_Success'',
      ''StromError_RowFiltered'', ''gpuscan_writeback_result'', ''gpuscan'']"
  by code_simp

lemma symbols_rs_prep:
  "symbols gpuscan_qual_rs_prep_text =
     [''__kernel'', ''void'', ''gpuscan_qual_rs_prep'', ''__global'',
      ''kern_row_store'', ''krs'', ''__global'', ''kern_column_store'', ''kcs'',
      ''kern_row_to_column_prep'', ''krs'', ''kcs'', ''lengthof'',
      ''used_vars'', ''used_vars'']"
  by code_simp

lemma symbols_rs:
  "symbols gpuscan_qual_rs_text =
     [''__kernel'', ''void'', ''gpuscan_qual_rs'', ''__global'',
      ''kern_gpuscan'', ''gpuscan'', ''__global'', ''kern_parambuf'',
      ''kparams'', ''__global'', ''kern_row_store'', ''krs'', ''__global'',
      ''kern_column_store'', ''kcs'', ''__local'', ''void'', ''local_workmem'',
      ''kern_row_to_column'', ''krs'', ''kcs'', ''lengthof'', ''used_vars'',
      ''used_vars'', ''local_workmem'', ''gpuscan_qual_cs'', ''gpuscan'',
      ''kparams'', ''kcs'', ''kern_toastbuf'', ''krs'', ''local_workmem'']"
  by code_simp

lemma segment_ends:
  "gpuscan_qual_cs_head \<noteq> []" "\<not> cl_ident_char (last gpuscan_qual_cs_head)"
  "gpuscan_qual_cs_tail \<noteq> []" "\<not> cl_ident_char (hd gpuscan_qual_cs_tail)"
  "\<not> cl_ident_char (last gpuscan_qual_cs_tail)"
  "gpuscan_qual_rs_prep_text \<noteq> []" "\<not> cl_ident_char (last gpuscan_qual_rs_prep_text)"
  by code_simp+

lemma symbols_entry_points:
  "symbols (gpuscan_qual_cs_text code @ gpuscan_qual_rs_prep_text @ gpuscan_qual_rs_text)
     = symbols gpuscan_qual_cs_head @ symbols code @ symbols gpuscan_qual_cs_tail @
       symbols gpuscan_qual_rs_prep_text @ symbols gpuscan_qual_rs_text"
proof -
  let ?p = gpuscan_qual_rs_prep_text and ?r = gpuscan_qual_rs_text
  have "symbols (gpuscan_qual_cs_text code @ ?p @ ?r)
        = symbols (gpuscan_qual_cs_head @ (code @ gpuscan_qual_cs_tail @ ?p @ ?r))"
    by (simp add: gpuscan_qual_cs_text_def)
  also have "\<dots> = symbols gpuscan_qual_cs_head @ symbols (code @ gpuscan_qual_cs_tail @ ?p @ ?r)"
    by (rule symbols_ends) (rule segment_ends)+
  also have "symbols (code @ gpuscan_qual_cs_tail @ ?p @ ?r)
        = symbols code @ symbols (gpuscan_qual_cs_tail @ ?p @ ?r)"
    by (rule symbols_starts) (simp_all add: segment_ends)
  also have "symbols (gpuscan_qual_cs_tail @ ?p @ ?r)
        = symbols gpuscan_qual_cs_tail @ symbols (?p @ ?r)"
    by (rule symbols_ends) (rule segment_ends)+
  also have "symbols (?p @ ?r) = symbols ?p @ symbols ?r"
    by (rule symbols_ends) (rule segment_ends)+
  finally show ?thesis .
qed


lemma allowed_concat_map:
  assumes "\<And>x rest. x \<in> set xs \<Longrightarrow>
             \<exists>ws. symbols (f x @ rest) = ws @ symbols rest \<and> list_all A ws"
    and "list_all A (symbols rest)"
  shows "list_all A (symbols (concat (map f xs) @ rest))"
  using assms(1)
proof (induction xs)
  case Nil
  show ?case using assms(2) by simp
next
  case (Cons x xs)
  have r: "list_all A (symbols (concat (map f xs) @ rest))"
    by (rule Cons.IH) (rule Cons.prems, simp)
  from Cons.prems [of x "concat (map f xs) @ rest"] obtain ws
    where "symbols (f x @ concat (map f xs) @ rest) = ws @ symbols (concat (map f xs) @ rest)"
      and "list_all A ws"
    by auto
  with r show ?case by simp
qed

lemma allowed_kparam_line:
  assumes "(i, n) \<in> set (zip [0..<length (used_params ctx)] (used_params ctx))"
    and "param_devtype dt n = Some d"
  shows "\<exists>ws. symbols (kparam_macro dt i n @ rest) = ws @ symbols rest
           \<and> list_all (allowed_symbol dt code ctx) ws"
proof -
  from assms(1) have i: "i < length (used_params ctx)" and n: "n \<in> set (used_params ctx)"
    by (auto dest: set_zip_leftD set_zip_rightD)
  let ?acc = "symbols (''pg_'' @ type_ident d @ ''_param'')"
  let ?ws = "[''define'', ''KPARAM_'' @ dec i] @ ?acc @ [''kparams'']"
  have e: "symbols (kparam_macro dt i n @ rest) = ?ws @ symbols rest"
    using symbols_kparam_macro [OF assms(2), of i rest] by simp
  have "set ?acc \<subseteq> set (accessor_symbols dt ctx)"
    using n assms(2) by (force simp: accessor_symbols_def)
  then have a: "list_all (allowed_symbol dt code ctx) ?acc"
    by (auto simp: list_all_iff allowed_symbol_def)
  have m: "''KPARAM_'' @ dec i \<in> set (macro_names ctx)"
    using i by (simp add: macro_names_def)
  have "list_all (allowed_symbol dt code ctx) ?ws"
    using a m
    by (simp add: allowed_symbol_def kernel_language_words_def entry_point_arguments_def)
  with e show ?thesis by blast
qed

lemma allowed_kvar_line:
  assumes "(i, n) \<in> set (zip [0..<length (used_vars ctx)] (used_vars ctx))"
    and "var_devtype dt n = Some d"
  shows "\<exists>ws. symbols (kvar_macro dt i n @ rest) = ws @ symbols rest
           \<and> list_all (allowed_symbol dt code ctx) ws"
proof -
  from assms(1) have i: "i < length (used_vars ctx)" and n: "n \<in> set (used_vars ctx)"
    by (auto dest: set_zip_leftD set_zip_rightD)
  let ?acc = "symbols (''pg_'' @ type_ident d @ ''_vref'')"
  let ?ws = "[''define'', ''KVAR_'' @ dec i] @ ?acc @
             (if type_is_varlena d then [''kcs'', ''toast'', ''get_global_id'']
              else [''kcs'', ''get_global_id''])"
  have e: "symbols (kvar_macro dt i n @ rest) = ?ws @ symbols rest"
    using symbols_kvar_macro [OF assms(2), of i rest] by simp
  have "set ?acc \<subseteq> set (accessor_symbols dt ctx)"
    using n assms(2) by (force simp: accessor_symbols_def)
  then have a: "list_all (allowed_symbol dt code ctx) ?acc"
    by (auto simp: list_all_iff allowed_symbol_def)
  have m: "''KVAR_'' @ dec i \<in> set (macro_names ctx)"
    using i by (simp add: macro_names_def)
  have "list_all (allowed_symbol dt code ctx) ?ws"
    using a m
    by (simp add: allowed_symbol_def kernel_language_words_def entry_point_arguments_def)
  with e show ?thesis by blast
qed

lemma allowed_entry_points:
  "list_all (allowed_symbol dt code ctx)
     (symbols (gpuscan_qual_cs_text code @ gpuscan_qual_rs_prep_text @ gpuscan_qual_rs_text))"
proof -
  have c: "list_all (allowed_symbol dt code ctx) (symbols code)"
    by (simp add: list_all_iff allowed_symbol_def)
  have h: "list_all (allowed_symbol dt code ctx) (symbols gpuscan_qual_cs_head)"
    unfolding symbols_cs_head
    by (simp add: allowed_symbol_def kernel_language_words_def entry_point_names_def
        entry_point_arguments_def entry_point_locals_def device_runtime_symbols_def)
  have t: "list_all (allowed_symbol dt code ctx) (symbols gpuscan_qual_cs_tail)"
    unfolding symbols_cs_tail
    by (simp add: allowed_symbol_def kernel_language_words_def entry_point_names_def
        entry_point_arguments_def entry_point_locals_def device_runtime_symbols_def)
  have p: "list_all (allowed_symbol dt code ctx) (symbols gpuscan_qual_rs_prep_text)"
    unfolding symbols_rs_prep
    by (simp add: allowed_symbol_def kernel_language_words_def entry_point_names_def
        entry_point_arguments_def entry_point_locals_def device_runtime_symbols_def)
  have r: "list_all (allowed_symbol dt code ctx) (symbols gpuscan_qual_rs_text)"
    unfolding symbols_rs
    by (simp add: allowed_symbol_def kernel_language_words_def entry_point_names_def
        entry_point_arguments_def entry_point_locals_def device_runtime_symbols_def)
  show ?thesis
    unfolding symbols_entry_points using c h t p r by simp
qed

lemma allowed_layout:
  assumes ap: "list_all (\<lambda>n. param_devtype dt n \<noteq> None) (used_params ctx)"
    and av: "list_all (\<lambda>n. var_devtype dt n \<noteq> None) (used_vars ctx)"
  shows "list_all (allowed_symbol dt code ctx) (symbols (kernel_source_layout dt code ctx))"
proof -
  let ?A = "allowed_symbol dt code ctx"
  let ?e = "gpuscan_qual_cs_text code @ gpuscan_qual_rs_prep_text @ gpuscan_qual_rs_text"
  let ?a = "used_vars_array (map (\<lambda>n. nat (varattno n)) (used_vars ctx)) @ ?e"
  let ?v = "concat (map2 (kvar_macro dt) [0..<length (used_vars ctx)] (used_vars ctx)) @ ?a"
  have e: "list_all ?A (symbols ?e)"
    by (rule allowed_entry_points)
  have a: "list_all ?A (symbols ?a)"
    unfolding symbols_used_vars_array using e
    by (simp add: allowed_symbol_def kernel_language_words_def device_runtime_symbols_def)
  have v: "list_all ?A (symbols ?v)"
  proof (rule allowed_concat_map [OF _ a])
    fix x rest
    assume x: "x \<in> set (zip [0..<length (used_vars ctx)] (used_vars ctx))"
    obtain i n where xin: "x = (i, n)" by (cases x)
    from x xin have "n \<in> set (used_vars ctx)" by (auto dest: set_zip_rightD)
    with av obtain d where d: "var_devtype dt n = Some d"
      by (auto simp: list_all_iff)
    from allowed_kvar_line [OF x [unfolded xin] d, of rest code]
    show "\<exists>ws. symbols ((case x of (i, n) \<Rightarrow> kvar_macro dt i n) @ rest) = ws @ symbols rest
              \<and> list_all ?A ws"
      by (simp add: xin)
  qed
  have "list_all ?A (symbols
     (concat (map2 (kparam_macro dt) [0..<length (used_params ctx)] (used_params ctx)) @ ?v))"
  proof (rule allowed_concat_map [OF _ v])
    fix x rest
    assume x: "x \<in> set (zip [0..<length (used_params ctx)] (used_params ctx))"
    obtain i n where xin: "x = (i, n)" by (cases x)
    from x xin have "n \<in> set (used_params ctx)" by (auto dest: set_zip_rightD)
    with ap obtain d where d: "param_devtype dt n = Some d"
      by (auto simp: list_all_iff)
    from allowed_kparam_line [OF x [unfolded xin] d, of rest code]
    show "\<exists>ws. symbols ((case x of (i, n) \<Rightarrow> kparam_macro dt i n) @ rest) = ws @ symbols rest
              \<and> list_all ?A ws"
      by (simp add: xin)
  qed
  then show ?thesis
    by (simp add: kernel_source_layout_def)
qed


lemma declared_of_append: "declared_of (xs @ ys) = declared_of xs @ declared_of ys"
  by (simp add: declared_of_def)

lemma example_pending:
  "pending_run cl_phrase_char [] example_macros = ''\<newline>\<newline>''"
  "pending_run cl_phrase_char ''\<newline>\<newline>'' gpuscan_qual_cs_head = '' ''"
  "pending_run cl_phrase_char '' '' example_code = []"
  "pending_run cl_phrase_char [] gpuscan_qual_cs_tail = ''\<newline>\<newline>''"
  "pending_run cl_phrase_char ''\<newline>\<newline>'' gpuscan_qual_rs_prep_text = ''\<newline>\<newline>''"
  by code_simp+

lemma example_declared_macros:
  "declared_of (closed_runs cl_phrase_char [] example_macros) =
     [''KPARAM_0'', ''pg_int4_param'', ''KPARAM_1'', ''pg_text_param'',
      ''KVAR_0'', ''pg_int4_vref'', ''KVAR_1'', ''pg_text_vref'',
      ''__constant'', ''cl_ushort'', ''pg_used_vars'']"
  by code_simp

lemma example_declared_cs_head:
  "declared_of (closed_runs cl_phrase_char ''\<newline>\<newline>'' gpuscan_qual_cs_head) =
     [''void'', ''gpuscan_qual_cs'', ''kern_gpuscan'', ''gpuscan'',
      ''kern_parambuf'', ''kparams'', ''kern_column_store'', ''kcs'',
      ''kern_toastbuf'', ''toast'', ''void'', ''local_workmem'', ''rc'',
      ''errcode'']"
  by code_simp

lemma example_declared_code:
  "declared_of (closed_runs cl_phrase_char '' '' example_code) = []"
  by code_simp

lemma example_declared_cs_tail:
  "declared_of (closed_runs cl_phrase_char [] gpuscan_qual_cs_tail) = [''rc'']"
  by code_simp

lemma example_declared_rs_prep:
  "declared_of (closed_runs cl_phrase_char ''\<newline>\<newline>'' gpuscan_qual_rs_prep_text) =
     [''void'', ''gpuscan_qual_rs_prep'', ''kern_row_store'', ''krs'',
      ''kern_column_store'', ''kcs'']"
  by code_simp

lemma example_declared_rs:
  "declared_of (runs cl_phrase_char ''\<newline>\<newline>'' gpuscan_qual_rs_text) =
     [''void'', ''gpuscan_qual_rs'', ''kern_gpuscan'', ''gpuscan'',
      ''kern_parambuf'', ''kparams'', ''kern_row_store'', ''krs'',
      ''kern_column_store'', ''kcs'', ''void'', ''local_workmem'']"
  by code_simp

lemma example_declared_names:
  "declared_names example_source =
     [''KPARAM_0'', ''pg_int4_param'', ''KPARAM_1'', ''pg_text_param'',
      ''KVAR_0'', ''pg_int4_vref'', ''KVAR_1'', ''pg_text_vref'',
      ''__constant'', ''cl_ushort'', ''pg_used_vars'',
      ''void'', ''gpuscan_qual_cs'', ''kern_gpuscan'', ''gpuscan'',
      ''kern_parambuf'', ''kparams'', ''kern_column_store'', ''kcs'',
      ''kern_toastbuf'', ''toast'', ''void'', ''local_workmem'', ''rc'',
      ''errcode'', ''rc'',
      ''void'', ''gpuscan_qual_rs_prep'', ''kern_row_store'', ''krs'',
      ''kern_column_store'', ''kcs'',
      ''void'', ''gpuscan_qual_rs'', ''kern_gpuscan'', ''gpuscan'',
      ''kern_parambuf'', ''kparams'', ''kern_row_store'', ''krs'',
      ''kern_column_store'', ''kcs'', ''void'', ''local_workmem'']"
proof -
  have "phrases example_source =
      closed_runs cl_phrase_char [] example_macros @
      closed_runs cl_phrase_char ''\<newline>\<newline>'' gpuscan_qual_cs_head @
      closed_runs cl_phrase_char '' '' example_code @
      closed_runs cl_phrase_char [] gpuscan_qual_cs_tail @
      closed_runs cl_phrase_char ''\<newline>\<newline>'' gpuscan_qual_rs_prep_text @
      runs cl_phrase_char ''\<newline>\<newline>'' gpuscan_qual_rs_text"
    unfolding phrases_def example_source_def gpuscan_qual_cs_text_def
    by (simp only: append_assoc runs_append example_pending)
  then have "declared_names example_source =
      declared_of (closed_runs cl_phrase_char [] example_macros) @
      declared_of (closed_runs cl_phrase_char ''\<newline>\<newline>'' gpuscan_qual_cs_head) @
      declared_of (closed_runs cl_phrase_char '' '' example_code) @
      declared_of (closed_runs cl_phrase_char [] gpuscan_qual_cs_tail) @
      declared_of (closed_runs cl_phrase_char ''\<newline>\<newline>'' gpuscan_qual_rs_prep_text) @
      declared_of (runs cl_phrase_char ''\<newline>\<newline>'' gpuscan_qual_rs_text)"
    by (simp only: declared_names_def declared_of_def [symmetric] declared_of_append)
  then show ?thesis
    by (simp only: example_declared_macros example_declared_cs_head example_declared_code
        example_declared_cs_tail example_declared_rs_prep example_declared_rs
        append_Cons append_Nil)
qed

lemma example_macros_end: "example_macros \<noteq> []" "\<not> cl_ident_char (last example_macros)"
  by code_simp+

lemma example_symbols:
  "symbols example_source =
     symbols example_macros @ symbols gpuscan_qual_cs_head @ symbols example_code @
     symbols gpuscan_qual_cs_tail @ symbols gpuscan_qual_rs_prep_text @
     symbols gpuscan_qual_rs_text"
  unfolding example_source_def
  by (simp only: symbols_ends [OF example_macros_end] symbols_entry_points)

text \<open>
  Claim C4, as the code has it. For a non-empty qualifier list on which the generator
  returns, every symbol of the source text is a word of the kernel language, a name the
  text declares (a macro \<^verbatim>\<open>KPARAM_<i>\<close> or \<^verbatim>\<open>KVAR_<i>\<close>, the array, an entry point, an
  argument or a local of one), a symbol of the device runtime the text is compiled
  with, of a type accessor \<^verbatim>\<open>pg_<type>_param\<close> or \<^verbatim>\<open>pg_<type>_vref\<close>, or of the
  expression text; nothing is said of \<^verbatim>\<open>used_vars\<close>.
\<close>

theorem generated_symbols_accounted:
  assumes ne: "quals \<noteq> []"
    and gen: "gpuscan_codegen_quals cg dt quals c0 = Inr (r, ctx)"
    and np: "length (used_params ctx) \<le> 2 ^ 31"
    and nv: "length (used_vars ctx) \<le> 2 ^ 31"
    and att: "list_all (\<lambda>n. 0 \<le> varattno n \<and> varattno n < 2 ^ 15) (used_vars ctx)"
  shows "\<exists>code src. cg quals zero_context = Inr (Some code, ctx) \<and> r = Some src
           \<and> list_all (allowed_symbol dt code ctx) (symbols src)"
proof -
  from codegen_quals_layout [OF ne gen np nv att] obtain code where
    cg: "cg quals zero_context = Inr (Some code, ctx)"
    and r: "r = Some (kernel_source_layout dt code ctx)"
    and ap: "list_all (\<lambda>n. param_devtype dt n \<noteq> None) (used_params ctx)"
    and av: "list_all (\<lambda>n. var_devtype dt n \<noteq> None) (used_vars ctx)"
    by blast
  from allowed_layout [OF ap av, of code] cg r show ?thesis
    by blast
qed

theorem generated_symbols_accounted_example:
  "example_quals \<noteq> []
   \<and> gpuscan_codegen_quals example_expression example_catalog example_quals zero_context
       = Inr (Some example_source, example_context)
   \<and> length (used_params example_context) \<le> 2 ^ 31
   \<and> length (used_vars example_context) \<le> 2 ^ 31
   \<and> list_all (\<lambda>n. 0 \<le> varattno n \<and> varattno n < 2 ^ 15) (used_vars example_context)
   \<and> (\<exists>code src. example_expression example_quals zero_context = Inr (Some code, example_context)
          \<and> Some example_source = Some src
          \<and> list_all (allowed_symbol example_catalog code example_context) (symbols src))"
proof -
  have h1: "example_quals \<noteq> []"
    by (simp add: example_quals_def)
  have h2: "gpuscan_codegen_quals example_expression example_catalog example_quals zero_context
       = Inr (Some example_source, example_context)"
    by (rule example_generates)
  have h3: "length (used_params example_context) \<le> 2 ^ 31"
    by (simp add: example_context_def)
  have h4: "length (used_vars example_context) \<le> 2 ^ 31"
    by (simp add: example_context_def)
  have h5: "list_all (\<lambda>n. 0 \<le> varattno n \<and> varattno n < 2 ^ 15) (used_vars example_context)"
    by (simp add: example_context_def)
  from generated_symbols_accounted [OF h1 h2 h3 h4 h5] h1 h2 h3 h4 h5 show ?thesis
    by simp
qed

text \<open>
  Claim C4, as the spec states it, fails: the source generated for the worked input
  calls \<^verbatim>\<open>gpuscan_writeback_result\<close>, which is no word of the language and which no
  line of the text declares.
\<close>

theorem generated_source_not_self_contained:
  "gpuscan_codegen_quals example_expression example_catalog example_quals zero_context
     = Inr (Some example_source, example_context)
   \<and> \<not> self_contained example_source"
proof -
  have "\<not> self_contained example_source"
  proof
    assume "self_contained example_source"
    then have a: "\<forall>w\<in>set (symbols example_source).
        w \<in> set kernel_language_words \<or> w \<in> set (declared_names example_source)"
      by (simp add: self_contained_def list_all_iff)
    have "''gpuscan_writeback_result'' \<in> set (symbols example_source)"
      unfolding example_symbols symbols_cs_tail by simp
    with a have "''gpuscan_writeback_result'' \<in> set kernel_language_words
        \<or> ''gpuscan_writeback_result'' \<in> set (declared_names example_source)"
      by blast
    then show False
      unfolding example_declared_names kernel_language_words_def by simp
  qed
  with example_generates show ?thesis by simp
qed


section \<open>Properties of the plan copy\<close>

lemma extends_refl: "store_extends h h"
  by (simp add: store_extends_def)

lemma extends_trans: "store_extends h1 h2 \<Longrightarrow> store_extends h2 h3 \<Longrightarrow> store_extends h1 h3"
  by (simp add: store_extends_def)

lemma store_wf_next_unused: "store_wf h \<Longrightarrow> map_of (objs h) (next_addr h) = None"
proof -
  assume "store_wf h"
  then have "\<forall>p\<in>set (objs h). fst p < next_addr h"
    by (auto simp: store_wf_def list_all_iff)
  then have "next_addr h \<notin> fst ` set (objs h)"
    by auto
  then show ?thesis
    by (simp add: map_of_eq_None_iff)
qed

lemma alloc_spec:
  assumes "store_wf h" and "alloc h v = (a, h')"
  shows "store_wf h' \<and> map_of (objs h') a = Some v \<and> map_of (objs h) a = None \<and> store_extends h h'"
proof -
  from assms(2) have a: "a = next_addr h"
    and h': "h' = h\<lparr>objs := (next_addr h, v) # objs h, next_addr := Suc (next_addr h)\<rparr>"
    by (auto simp: alloc_def)
  from assms(1) have "store_wf h'"
    by (auto simp: store_wf_def h' list_all_iff)
  moreover have "map_of (objs h') a = Some v"
    by (simp add: a h')
  moreover have n: "map_of (objs h) a = None"
    unfolding a by (rule store_wf_next_unused [OF assms(1)])
  moreover have "store_extends h h'"
    using n by (auto simp: store_extends_def h' a)
  ultimately show ?thesis by simp
qed

lemma fresh_in_extends: "store_extends h h' \<Longrightarrow> fresh_in h' p \<Longrightarrow> fresh_in h p"
proof (cases p)
  case None
  then show ?thesis by (simp add: fresh_in_def)
next
  case (Some a)
  assume e: "store_extends h h'" and f: "fresh_in h' p"
  from f Some have n: "map_of (objs h') a = None" by (simp add: fresh_in_def)
  have "map_of (objs h) a = None"
  proof (cases "map_of (objs h) a")
    case None
    then show ?thesis .
  next
    case (Some v)
    with e have "map_of (objs h') a = Some v" by (simp add: store_extends_def)
    with n show ?thesis by simp
  qed
  with Some show ?thesis by (simp add: fresh_in_def)
qed

lemma is_list_ptr_extends: "store_extends h h' \<Longrightarrow> is_list_ptr h p \<Longrightarrow> is_list_ptr h' p"
  by (cases p) (auto simp: is_list_ptr_def store_extends_def split: option.splits obj.splits)

lemma is_bitmap_ptr_extends: "store_extends h h' \<Longrightarrow> is_bitmap_ptr h p \<Longrightarrow> is_bitmap_ptr h' p"
  by (cases p) (auto simp: is_bitmap_ptr_def store_extends_def split: option.splits obj.splits)

lemma copyObject_spec:
  assumes wf: "store_wf h" and p: "is_list_ptr h p"
  shows "\<exists>p' h'. copyObject h p = Some (p', h') \<and> store_wf h' \<and> store_extends h h'
           \<and> deref h' p' = deref h p \<and> fresh_in h p' \<and> (p' = None \<or> deref h' p' \<noteq> None)"
proof (cases p)
  case None
  then show ?thesis
    using wf by (simp add: copyObject_def extends_refl deref_def fresh_in_def)
next
  case (Some a)
  with p obtain ns where ns: "map_of (objs h) a = Some (ListObj ns)"
    by (auto simp: is_list_ptr_def split: option.splits obj.splits)
  obtain a' h' where al: "alloc h (ListObj ns) = (a', h')"
    by (cases "alloc h (ListObj ns)")
  from alloc_spec [OF wf al] show ?thesis
    by (simp add: copyObject_def Some ns al deref_def fresh_in_def)
qed

lemma bms_copy_spec:
  assumes wf: "store_wf h" and p: "is_bitmap_ptr h p"
  shows "\<exists>p' h'. bms_copy h p = Some (p', h') \<and> store_wf h' \<and> store_extends h h'
           \<and> deref h' p' = deref h p \<and> fresh_in h p' \<and> (p' = None \<or> deref h' p' \<noteq> None)"
proof (cases p)
  case None
  then show ?thesis
    using wf by (simp add: bms_copy_def extends_refl deref_def fresh_in_def)
next
  case (Some a)
  with p obtain s where s: "map_of (objs h) a = Some (BitmapObj s)"
    by (auto simp: is_bitmap_ptr_def split: option.splits obj.splits)
  obtain a' h' where al: "alloc h (BitmapObj s) = (a', h')"
    by (cases "alloc h (BitmapObj s)")
  from alloc_spec [OF wf al] show ?thesis
    by (simp add: bms_copy_def Some s al deref_def fresh_in_def)
qed

lemma deref_stable: "store_extends h h' \<Longrightarrow> p = None \<or> deref h p \<noteq> None \<Longrightarrow> deref h' p = deref h p"
  by (cases p) (auto simp: deref_def store_extends_def)

text \<open>
  Claim C10. For a plan node whose copied pointers are valid, \<^verbatim>\<open>gpuscan_copy_plan\<close>
  returns a node with the original's \<^verbatim>\<open>scanrelid\<close> and \<^verbatim>\<open>extra_flags\<close>; its
  \<^verbatim>\<open>used_params\<close>, \<^verbatim>\<open>used_vars\<close>, \<^verbatim>\<open>dev_attrs\<close> and \<^verbatim>\<open>host_attrs\<close> point to
  objects with the contents of the original's, at addresses the store did not hold
  before (copies); its \<^verbatim>\<open>kern_source\<close> is what the memory from \<^verbatim>\<open>palloc\<close> held, not
  the original's; and its \<^verbatim>\<open>dev_clauses\<close> is the original's pointer itself.
\<close>

theorem copy_plan_fields:
  assumes wf: "store_wf h"
    and l1: "is_list_ptr h (gsp_used_params from)"
    and l2: "is_list_ptr h (gsp_used_vars from)"
    and b1: "is_bitmap_ptr h (gsp_dev_attrs from)"
    and b2: "is_bitmap_ptr h (gsp_host_attrs from)"
  shows "\<exists>new h'. gpuscan_copy_plan cc from junk h = Some (new, h')
     \<and> gsp_cplan new = cc (gsp_cplan from)
     \<and> gsp_scanrelid new = gsp_scanrelid from
     \<and> gsp_extra_flags new = gsp_extra_flags from
     \<and> deref h' (gsp_used_params new) = deref h (gsp_used_params from)
     \<and> deref h' (gsp_used_vars new) = deref h (gsp_used_vars from)
     \<and> deref h' (gsp_dev_attrs new) = deref h (gsp_dev_attrs from)
     \<and> deref h' (gsp_host_attrs new) = deref h (gsp_host_attrs from)
     \<and> fresh_in h (gsp_used_params new) \<and> fresh_in h (gsp_used_vars new)
     \<and> fresh_in h (gsp_dev_attrs new) \<and> fresh_in h (gsp_host_attrs new)
     \<and> gsp_kern_source new = gsp_kern_source junk
     \<and> gsp_dev_clauses new = gsp_dev_clauses from"
proof -
  from copyObject_spec [OF wf l1] obtain p1 h1 where
    c1: "copyObject h (gsp_used_params from) = Some (p1, h1)" and wf1: "store_wf h1"
    and e1: "store_extends h h1" and d1: "deref h1 p1 = deref h (gsp_used_params from)"
    and f1: "fresh_in h p1" and v1: "p1 = None \<or> deref h1 p1 \<noteq> None"
    by blast
  from copyObject_spec [OF wf1 is_list_ptr_extends [OF e1 l2]] obtain p2 h2 where
    c2: "copyObject h1 (gsp_used_vars from) = Some (p2, h2)" and wf2: "store_wf h2"
    and e2: "store_extends h1 h2" and d2: "deref h2 p2 = deref h1 (gsp_used_vars from)"
    and f2: "fresh_in h1 p2" and v2: "p2 = None \<or> deref h2 p2 \<noteq> None"
    by blast
  have e02: "store_extends h h2" by (rule extends_trans [OF e1 e2])
  from bms_copy_spec [OF wf2 is_bitmap_ptr_extends [OF e02 b1]] obtain p3 h3 where
    c3: "bms_copy h2 (gsp_dev_attrs from) = Some (p3, h3)" and wf3: "store_wf h3"
    and e3: "store_extends h2 h3" and d3: "deref h3 p3 = deref h2 (gsp_dev_attrs from)"
    and f3: "fresh_in h2 p3" and v3: "p3 = None \<or> deref h3 p3 \<noteq> None"
    by blast
  have e03: "store_extends h h3" by (rule extends_trans [OF e02 e3])
  from bms_copy_spec [OF wf3 is_bitmap_ptr_extends [OF e03 b2]] obtain p4 h4 where
    c4: "bms_copy h3 (gsp_host_attrs from) = Some (p4, h4)" and wf4: "store_wf h4"
    and e4: "store_extends h3 h4" and d4: "deref h4 p4 = deref h3 (gsp_host_attrs from)"
    and f4: "fresh_in h3 p4" and v4: "p4 = None \<or> deref h4 p4 \<noteq> None"
    by blast
  have e14: "store_extends h1 h4" by (rule extends_trans [OF e2 extends_trans [OF e3 e4]])
  have e24: "store_extends h2 h4" by (rule extends_trans [OF e3 e4])
  have ptr_ok: "\<And>q. is_list_ptr h q \<or> is_bitmap_ptr h q \<Longrightarrow> q = None \<or> deref h q \<noteq> None"
    by (auto simp: is_list_ptr_def is_bitmap_ptr_def deref_def split: option.splits)
  have r1: "deref h4 p1 = deref h (gsp_used_params from)"
    using deref_stable [OF e14 v1] d1 by simp
  have r2: "deref h4 p2 = deref h (gsp_used_vars from)"
    using deref_stable [OF e24 v2] d2 deref_stable [OF e1 ptr_ok [of "gsp_used_vars from"]] l2
    by simp
  have r3: "deref h4 p3 = deref h (gsp_dev_attrs from)"
    using deref_stable [OF e4 v3] d3 deref_stable [OF e02 ptr_ok [of "gsp_dev_attrs from"]] b1
    by simp
  have r4: "deref h4 p4 = deref h (gsp_host_attrs from)"
    using d4 deref_stable [OF e03 ptr_ok [of "gsp_host_attrs from"]] b2
    by simp
  have g2: "fresh_in h p2" by (rule fresh_in_extends [OF e1 f2])
  have g3: "fresh_in h p3" by (rule fresh_in_extends [OF e02 f3])
  have g4: "fresh_in h p4" by (rule fresh_in_extends [OF e03 f4])
  show ?thesis
    using r1 r2 r3 r4 f1 g2 g3 g4
    by (simp add: gpuscan_copy_plan_def Let_def c1 c2 c3 c4)
qed


theorem copy_plan_fields_example:
  "store_wf example_store
   \<and> is_list_ptr example_store (gsp_used_params example_plan)
   \<and> is_list_ptr example_store (gsp_used_vars example_plan)
   \<and> is_bitmap_ptr example_store (gsp_dev_attrs example_plan)
   \<and> is_bitmap_ptr example_store (gsp_host_attrs example_plan)
   \<and> (\<exists>new h'. gpuscan_copy_plan (\<lambda>c. c) example_plan example_junk example_store = Some (new, h')
     \<and> gsp_cplan new = gsp_cplan example_plan
     \<and> gsp_scanrelid new = gsp_scanrelid example_plan
     \<and> gsp_extra_flags new = gsp_extra_flags example_plan
     \<and> deref h' (gsp_used_params new) = deref example_store (gsp_used_params example_plan)
     \<and> deref h' (gsp_used_vars new) = deref example_store (gsp_used_vars example_plan)
     \<and> deref h' (gsp_dev_attrs new) = deref example_store (gsp_dev_attrs example_plan)
     \<and> deref h' (gsp_host_attrs new) = deref example_store (gsp_host_attrs example_plan)
     \<and> fresh_in example_store (gsp_used_params new)
     \<and> fresh_in example_store (gsp_used_vars new)
     \<and> fresh_in example_store (gsp_dev_attrs new)
     \<and> fresh_in example_store (gsp_host_attrs new)
     \<and> gsp_kern_source new = gsp_kern_source example_junk
     \<and> gsp_dev_clauses new = gsp_dev_clauses example_plan)
   \<and> gsp_kern_source example_junk \<noteq> gsp_kern_source example_plan"
proof -
  have wf: "store_wf example_store"
    by (simp add: store_wf_def example_store_def)
  have l1: "is_list_ptr example_store (gsp_used_params example_plan)"
    by (simp add: is_list_ptr_def example_store_def example_plan_def)
  have l2: "is_list_ptr example_store (gsp_used_vars example_plan)"
    by (simp add: is_list_ptr_def example_store_def example_plan_def)
  have b1: "is_bitmap_ptr example_store (gsp_dev_attrs example_plan)"
    by (simp add: is_bitmap_ptr_def example_store_def example_plan_def)
  have b2: "is_bitmap_ptr example_store (gsp_host_attrs example_plan)"
    by (simp add: is_bitmap_ptr_def example_store_def example_plan_def)
  have k: "gsp_kern_source example_junk \<noteq> gsp_kern_source example_plan"
    by (simp add: example_junk_def example_plan_def)
  from copy_plan_fields [OF wf l1 l2 b1 b2, of "\<lambda>c. c" example_junk] wf l1 l2 b1 b2 k
  show ?thesis by simp
qed

section \<open>Properties of the scan execution\<close>

lemma scan_step_keeps_state: "scan_step c node = Inr node' \<Longrightarrow> node' = node"
  by (cases c)
     (auto simp: scan_step_def gpuscan_exec_def gpuscan_exec_multi_def gpuscan_end_def
        gpuscan_rescan_def)

lemma scan_states_same:
  "list_all (\<lambda>s. s = node) (scan_states calls node)"
proof (induction calls)
  case Nil
  show ?case by simp
next
  case (Cons c calls)
  show ?case
  proof (cases "scan_step c node")
    case (Inl e)
    then show ?thesis by simp
  next
    case (Inr node')
    with scan_step_keeps_state [OF Inr] Cons show ?thesis by simp
  qed
qed

lemma begin_sets_heap_only:
  "gpuscan_begin env gsplan = (Inr gss, events) \<Longrightarrow> scan_mode gss = GpuScanMode_HeapOnlyScan"
  by (auto simp: gpuscan_begin_def Let_def split: option.splits)

text \<open>
  Claim C6, as the code has it. When \<^verbatim>\<open>gpuscan_begin\<close> returns, the scan mode is
  heap-only, one of the four distinct modes, whatever the plan and wherever its columns
  live; and no later call of the scan's entry points returns a state with another
  mode.
\<close>

theorem scan_mode_heap_only:
  assumes "gpuscan_begin env gsplan = (Inr gss, events)"
  shows "scan_mode gss = GpuScanMode_HeapOnlyScan
     \<and> distinct [GpuScanMode_CacheOnlyScan, GpuScanMode_HybridScan,
                 GpuScanMode_HeapOnlyScan, GpuScanMode_CreateCache]
     \<and> list_all (\<lambda>s. scan_mode s = GpuScanMode_HeapOnlyScan) (scan_states calls gss)"
proof -
  have m: "scan_mode gss = GpuScanMode_HeapOnlyScan"
    by (rule begin_sets_heap_only [OF assms])
  have "list_all (\<lambda>s. s = gss) (scan_states calls gss)"
    by (rule scan_states_same)
  then have "list_all (\<lambda>s. scan_mode s = GpuScanMode_HeapOnlyScan) (scan_states calls gss)"
    using m by (auto simp: list_all_iff)
  with m show ?thesis
    by (simp add: GpuScanMode_CacheOnlyScan_def GpuScanMode_HybridScan_def
        GpuScanMode_HeapOnlyScan_def GpuScanMode_CreateCache_def)
qed

lemma example_begin:
  "gpuscan_begin example_env example_plan =
     (Inr \<lparr>scan_mode = 3, shmcontext = Some 7, mqueue = Some 8, parambuf = Some 9,
           dprog_key = 1005, ready_chunks = [], free_chunks = []\<rparr>,
      [Acquire (ShmContext 7), Acquire (MsgQueue 8), Acquire (ParamBuf 9)])"
  by (simp add: gpuscan_begin_def example_env_def example_plan_def palloc0_GpuScanState_def
      GpuScanMode_HeapOnlyScan_def)

theorem scan_mode_heap_only_example:
  "gpuscan_begin example_env example_plan =
     (Inr \<lparr>scan_mode = 3, shmcontext = Some 7, mqueue = Some 8, parambuf = Some 9,
           dprog_key = 1005, ready_chunks = [], free_chunks = []\<rparr>,
      [Acquire (ShmContext 7), Acquire (MsgQueue 8), Acquire (ParamBuf 9)])
   \<and> scan_mode \<lparr>scan_mode = 3, shmcontext = Some 7, mqueue = Some 8, parambuf = Some 9,
           dprog_key = 1005, ready_chunks = [], free_chunks = []\<rparr> = GpuScanMode_HeapOnlyScan
   \<and> distinct [GpuScanMode_CacheOnlyScan, GpuScanMode_HybridScan,
               GpuScanMode_HeapOnlyScan, GpuScanMode_CreateCache]
   \<and> list_all (\<lambda>s. scan_mode s = GpuScanMode_HeapOnlyScan)
       (scan_states [ExecCustomPlan, ExecCustomPlan, EndCustomPlan]
          \<lparr>scan_mode = 3, shmcontext = Some 7, mqueue = Some 8, parambuf = Some 9,
           dprog_key = 1005, ready_chunks = [], free_chunks = []\<rparr>)
   \<and> length (scan_states [ExecCustomPlan, ExecCustomPlan, EndCustomPlan]
          \<lparr>scan_mode = 3, shmcontext = Some 7, mqueue = Some 8, parambuf = Some 9,
           dprog_key = 1005, ready_chunks = [], free_chunks = []\<rparr>) = 3"
  using scan_mode_heap_only [OF example_begin, of "[ExecCustomPlan, ExecCustomPlan, EndCustomPlan]"]
    example_begin
  by (simp add: scan_step_def gpuscan_exec_def gpuscan_end_def)

text \<open>
  Claim C6, as the spec states it, fails: for the worked plan with every column of its
  qualifiers and of its target list on the columnar cache, the spec's selection is the
  cache-only mode, and \<^verbatim>\<open>gpuscan_begin\<close> returns a state in the heap-only mode.
\<close>

theorem scan_mode_not_by_residency:
  "\<not> (\<forall>cached populate gss events.
        gpuscan_begin example_env example_plan = (Inr gss, events) \<longrightarrow>
        scan_mode gss = scan_mode_by_residency cached populate
                          (attrs_at example_store (gsp_dev_attrs example_plan))
                          (attrs_at example_store (gsp_host_attrs example_plan)))"
proof
  assume a: "\<forall>cached populate gss events.
        gpuscan_begin example_env example_plan = (Inr gss, events) \<longrightarrow>
        scan_mode gss = scan_mode_by_residency cached populate
                          (attrs_at example_store (gsp_dev_attrs example_plan))
                          (attrs_at example_store (gsp_host_attrs example_plan))"
  have "scan_mode \<lparr>scan_mode = 3, shmcontext = Some 7, mqueue = Some 8, parambuf = Some 9,
           dprog_key = 1005, ready_chunks = [], free_chunks = []\<rparr>
        = scan_mode_by_residency {1, 2, 3} False
            (attrs_at example_store (gsp_dev_attrs example_plan))
            (attrs_at example_store (gsp_host_attrs example_plan))"
    using a example_begin by blast
  then show False
    by (simp add: scan_mode_by_residency_def attrs_at_def deref_def example_store_def
        example_plan_def GpuScanMode_CacheOnlyScan_def)
qed

lemma begin_never_releases: "releases_of r (snd (gpuscan_begin env gsplan)) = 0"
  by (simp add: gpuscan_begin_def Let_def split: option.splits)

text \<open>
  Claim C7 fails on the code. \<^verbatim>\<open>gpuscan_begin\<close> makes no release at all. When the
  message queue cannot be created, the error leaves with the shared memory context
  still held; when the parameter buffer cannot be created, there is no error: the
  function returns a state with a \<^verbatim>\<open>NULL\<close> buffer.
\<close>

theorem begin_failure_keeps_resources:
  "releases_of r (snd (gpuscan_begin env gsplan)) = 0
   \<and> gpuscan_begin (example_env\<lparr>pgstrom_create_queue := None\<rparr>) example_plan
       = (Inl (EreportError ERRCODE_OUT_OF_MEMORY ''failed to create message queue''),
          [Acquire (ShmContext 7)])
   \<and> held_after (snd (gpuscan_begin (example_env\<lparr>pgstrom_create_queue := None\<rparr>) example_plan))
       = [ShmContext 7]
   \<and> gpuscan_begin (example_env\<lparr>pgstrom_create_parambuf := (\<lambda>shm. None)\<rparr>) example_plan
       = (Inr \<lparr>scan_mode = 3, shmcontext = Some 7, mqueue = Some 8, parambuf = None,
               dprog_key = 1005, ready_chunks = [], free_chunks = []\<rparr>,
          [Acquire (ShmContext 7), Acquire (MsgQueue 8)])"
  by (simp add: begin_never_releases)
     (simp add: gpuscan_begin_def example_env_def example_plan_def palloc0_GpuScanState_def
        GpuScanMode_HeapOnlyScan_def held_after_def)

text \<open>
  Claim C8. On every scan state, \<^verbatim>\<open>gpuscan_exec_multi\<close> and \<^verbatim>\<open>gpuscan_rescan\<close> raise
  the error "not implemented yet", and neither returns a result.
\<close>

theorem multi_exec_and_rescan_not_implemented:
  "gpuscan_exec_multi node = Inl (ElogError ''not implemented yet'')
   \<and> gpuscan_rescan node = Inl (ElogError ''not implemented yet'')
   \<and> (\<forall>r. gpuscan_exec_multi node \<noteq> Inr r)
   \<and> (\<forall>r. gpuscan_rescan node \<noteq> Inr r)"
  by (simp add: gpuscan_exec_multi_def gpuscan_rescan_def)

section \<open>Properties of the cost estimator\<close>






















end
